theory Spec2Isabelle
  imports Complex_Main
begin

section \<open>JavaScript values used by the break timer\<close>

text \<open>
  The three versions of the component (\<^verbatim>\<open>src/src/App.vue\<close> and the two documents of
  \<^verbatim>\<open>src/unnamed/part_000\<close>) compute with JavaScript numbers and \<^verbatim>\<open>Date\<close> objects.

  \<^item> \<open>number\<close> is the result of \<^verbatim>\<open>Number(string)\<close>: a finite binary64 value, given by its
    exact rational value, an infinity, or NaN.
  \<^item> \<open>timeval\<close> is a time value or a difference of time values in milliseconds: an
    integer, or NaN.  Every product \<^verbatim>\<open>minutes * 60_000\<close> and sum \<^verbatim>\<open>now + ...\<close> below has
    integer operands; binary64 arithmetic on them is exact up to \<open>2 ^ 53\<close>, and a sum the
    rounding could change lies outside the range of \<^verbatim>\<open>Date\<close> (the clock itself always
    delivers a time value inside it), where \<open>TimeClip\<close> turns it into NaN anyway.  So the
    integer model with \<open>TimeClip\<close> gives the values the program computes.
  \<^item> \<open>date\<close> is a \<^verbatim>\<open>Date\<close> object, given by its time value; \<open>Date TNaN\<close> is an
    Invalid Date.  The program never shares a \<^verbatim>\<open>Date\<close> it mutates afterwards, so dates
    are values.
\<close>

datatype number = NaN | PosInf | NegInf | Fin rat

datatype timeval = Ms int | TNaN

datatype date = Date (getTime: timeval)

fun tv_add :: "timeval \<Rightarrow> timeval \<Rightarrow> timeval" where
  "tv_add (Ms a) (Ms b) = Ms (a + b)"
| "tv_add _ _ = TNaN"

fun tv_sub :: "timeval \<Rightarrow> timeval \<Rightarrow> timeval" where
  "tv_sub (Ms a) (Ms b) = Ms (a - b)"
| "tv_sub _ _ = TNaN"

text \<open>Comparisons with NaN are false.\<close>

fun tv_le :: "timeval \<Rightarrow> timeval \<Rightarrow> bool" where
  "tv_le (Ms a) (Ms b) = (a \<le> b)"
| "tv_le _ _ = False"

fun tv_gt :: "timeval \<Rightarrow> timeval \<Rightarrow> bool" where
  "tv_gt (Ms a) (Ms b) = (a > b)"
| "tv_gt _ _ = False"

fun tv_ge :: "timeval \<Rightarrow> timeval \<Rightarrow> bool" where
  "tv_ge (Ms a) (Ms b) = (a \<ge> b)"
| "tv_ge _ _ = False"

text \<open>\<^verbatim>\<open>Math.max\<close>: NaN if an argument is NaN.\<close>

fun Math_max :: "timeval \<Rightarrow> timeval \<Rightarrow> timeval" where
  "Math_max (Ms a) (Ms b) = Ms (max a b)"
| "Math_max _ _ = TNaN"

text \<open>
  ECMAScript's \<open>TimeClip\<close>: a \<^verbatim>\<open>Date\<close> holds at most \<open>8.64e15\<close> ms on either side of the
  epoch; \<^verbatim>\<open>new Date(v)\<close> with \<open>v\<close> outside is an Invalid Date.
\<close>

definition maxTime :: int where
  "maxTime = 8640000000000000"

fun TimeClip :: "timeval \<Rightarrow> timeval" where
  "TimeClip (Ms t) = (if \<bar>t\<bar> \<le> maxTime then Ms t else TNaN)"
| "TimeClip TNaN = TNaN"

definition new_Date :: "timeval \<Rightarrow> date" where
  "new_Date v = Date (TimeClip v)"

text \<open>\<^verbatim>\<open>Number.isFinite(n)\<close> and \<^verbatim>\<open>n <= 0\<close> on a number.\<close>

fun isFinite :: "number \<Rightarrow> bool" where
  "isFinite (Fin q) = True"
| "isFinite _ = False"

fun le_zero :: "number \<Rightarrow> bool" where
  "le_zero (Fin q) = (q \<le> 0)"
| "le_zero NegInf = True"
| "le_zero _ = False"

text \<open>
  The conversions of strings the component calls, \<^verbatim>\<open>Number(string)\<close> and
  \<^verbatim>\<open>new Date(string)\<close>, are library functions of the runtime, not code of the repository:
  the operations that call them take them as the parameters \<open>Number\<close> and \<open>parse\<close>.
\<close>

type_synonym to_number = "string \<Rightarrow> number"

type_synonym to_date = "string \<Rightarrow> date"

section \<open>ECMAScript time values\<close>

text \<open>
  The arithmetic of the ECMAScript specification on time values (milliseconds since the
  epoch, proleptic Gregorian calendar), which \<^verbatim>\<open>Date.UTC\<close>, the \<^verbatim>\<open>Date\<close> getters and setters
  and the date formatter compute with: \<open>Day\<close>, \<open>TimeWithinDay\<close>, \<open>DaysInYear\<close>,
  \<open>DayFromYear\<close>, \<open>TimeFromYear\<close>, \<open>YearFromTime\<close>, \<open>MonthFromTime\<close>, \<open>DateFromTime\<close>, \<open>HourFromTime\<close>,
  \<open>MinFromTime\<close>, \<open>SecFromTime\<close>, \<open>MakeTime\<close>, \<open>MakeDay\<close>, \<open>MakeDate\<close>.
\<close>

definition msPerDay :: int where "msPerDay = 86400000"

definition msPerHour :: int where "msPerHour = 3600000"

definition msPerMinute :: int where "msPerMinute = 60000"

definition msPerSecond :: int where "msPerSecond = 1000"

definition Day :: "int \<Rightarrow> int" where "Day t = t div msPerDay"

definition TimeWithinDay :: "int \<Rightarrow> int" where "TimeWithinDay t = t mod msPerDay"

definition DaysInYear :: "int \<Rightarrow> int" where
  "DaysInYear y =
     (if y mod 4 \<noteq> 0 then 365 else if y mod 100 \<noteq> 0 then 366
      else if y mod 400 \<noteq> 0 then 365 else 366)"

definition DayFromYear :: "int \<Rightarrow> int" where
  "DayFromYear y =
     365 * (y - 1970) + (y - 1969) div 4 - (y - 1901) div 100 + (y - 1601) div 400"

definition TimeFromYear :: "int \<Rightarrow> int" where
  "TimeFromYear y = msPerDay * DayFromYear y"

text \<open>
  \<open>YearFromTime\<close> is the largest year whose first day is not after the given day.  It is
  found by searching upwards from an estimate that is never too large; the search ends
  because the first days of the years increase.
\<close>

lemma div_succ:
  fixes a n :: int
  assumes "0 < n"
  shows "(a + 1) div n = a div n + (if (a + 1) mod n = 0 then 1 else 0)"
proof (cases "(a + 1) mod n = 0")
  case True
  have "a + 1 = n * ((a + 1) div n) + (a + 1) mod n" by simp
  with True have "a = n * ((a + 1) div n - 1) + (n - 1)"
    by (simp add: algebra_simps)
  then have "a div n = (a + 1) div n - 1"
    using assms int_div_pos_eq [of a n "(a + 1) div n - 1" "n - 1"] by simp
  with True show ?thesis by simp
next
  case False
  have m: "0 \<le> (a + 1) mod n" "(a + 1) mod n < n"
    using assms by simp_all
  have "a + 1 = n * ((a + 1) div n) + (a + 1) mod n" by simp
  then have "a = n * ((a + 1) div n) + ((a + 1) mod n - 1)"
    by (simp add: algebra_simps)
  then have "a div n = (a + 1) div n"
    using m False int_div_pos_eq [of a n "(a + 1) div n" "(a + 1) mod n - 1"] by simp
  with False show ?thesis by simp
qed

lemma mod_of_multiple:
  fixes y :: int
  assumes "y mod m = 0" and "n dvd m"
  shows "y mod n = 0"
proof -
  from assms(1) have "m dvd y" by (simp add: mod_eq_0_iff_dvd)
  with assms(2) have "n dvd y" by (rule dvd_trans)
  then show ?thesis by simp
qed

lemma DayFromYear_Suc: "DayFromYear (y + 1) = DayFromYear y + DaysInYear y"
proof -
  have a: "(y + 1 - 1969) div 4 = (y - 1969) div 4 + (if y mod 4 = 0 then 1 else 0)"
    by presburger
  have m100: "(y - 1900) mod 100 = y mod 100" by algebra
  have m400: "(y - 1600) mod 400 = y mod 400" by algebra
  have b: "(y + 1 - 1901) div 100 = (y - 1901) div 100 + (if y mod 100 = 0 then 1 else 0)"
    using div_succ [of 100 "y - 1901"] m100 by (simp add: algebra_simps)
  have c: "(y + 1 - 1601) div 400 = (y - 1601) div 400 + (if y mod 400 = 0 then 1 else 0)"
    using div_succ [of 400 "y - 1601"] m400 by (simp add: algebra_simps)
  have d: "y mod 100 = 0 \<Longrightarrow> y mod 4 = 0"
    by (rule mod_of_multiple [of y 100 4]) simp_all
  have e: "y mod 400 = 0 \<Longrightarrow> y mod 100 = 0"
    by (rule mod_of_multiple [of y 400 100]) simp_all
  show ?thesis
    unfolding DayFromYear_def DaysInYear_def a b c using d e by auto
qed

lemma DaysInYear_bounds: "365 \<le> DaysInYear y" "DaysInYear y \<le> 366"
  by (simp_all add: DaysInYear_def)

lemma DayFromYear_less: "DayFromYear y < DayFromYear (y + 1)"
  using DaysInYear_bounds(1) [of y] by (simp add: DayFromYear_Suc)

function year_from :: "int \<Rightarrow> int \<Rightarrow> int" where
  "year_from d y = (if DayFromYear (y + 1) \<le> d then year_from d (y + 1) else y)"
  by pat_completeness auto
termination
proof (relation "measure (\<lambda>(d, y). nat (d + 1 - DayFromYear (y + 1)))")
  show "wf (measure (\<lambda>(d, y). nat (d + 1 - DayFromYear (y + 1))))" by simp
next
  fix d y :: int
  assume "DayFromYear (y + 1) \<le> d"
  then show "((d, y + 1), (d, y)) \<in> measure (\<lambda>(d, y). nat (d + 1 - DayFromYear (y + 1)))"
    using DayFromYear_less [of "y + 1"] by simp
qed

declare year_from.simps [simp del]

definition year_estimate :: "int \<Rightarrow> int" where
  "year_estimate d = 1970 + (if 0 \<le> d then d div 366 else d div 365)"

definition YearFromDay :: "int \<Rightarrow> int" where
  "YearFromDay d = year_from d (year_estimate d)"

definition YearFromTime :: "int \<Rightarrow> int" where
  "YearFromTime t = YearFromDay (Day t)"

definition DayWithinYear :: "int \<Rightarrow> int" where
  "DayWithinYear t = Day t - DayFromYear (YearFromTime t)"

definition InLeapYear :: "int \<Rightarrow> int" where
  "InLeapYear t = (if DaysInYear (YearFromTime t) = 366 then 1 else 0)"

definition month_start :: "int \<Rightarrow> int \<Rightarrow> int" where
  "month_start l m =
     (if m = 0 then 0 else if m = 1 then 31 else if m = 2 then 59 + l
      else if m = 3 then 90 + l else if m = 4 then 120 + l else if m = 5 then 151 + l
      else if m = 6 then 181 + l else if m = 7 then 212 + l else if m = 8 then 243 + l
      else if m = 9 then 273 + l else if m = 10 then 304 + l else 334 + l)"

definition MonthFromTime :: "int \<Rightarrow> int" where
  "MonthFromTime t =
     (let d = DayWithinYear t; l = InLeapYear t in
      if d < 31 then 0 else if d < 59 + l then 1 else if d < 90 + l then 2
      else if d < 120 + l then 3 else if d < 151 + l then 4 else if d < 181 + l then 5
      else if d < 212 + l then 6 else if d < 243 + l then 7 else if d < 273 + l then 8
      else if d < 304 + l then 9 else if d < 334 + l then 10 else 11)"

definition DateFromTime :: "int \<Rightarrow> int" where
  "DateFromTime t = DayWithinYear t - month_start (InLeapYear t) (MonthFromTime t) + 1"

definition HourFromTime :: "int \<Rightarrow> int" where
  "HourFromTime t = (t div msPerHour) mod 24"

definition MinFromTime :: "int \<Rightarrow> int" where
  "MinFromTime t = (t div msPerMinute) mod 60"

definition SecFromTime :: "int \<Rightarrow> int" where
  "SecFromTime t = (t div msPerSecond) mod 60"

definition msFromTime :: "int \<Rightarrow> int" where
  "msFromTime t = t mod msPerSecond"

definition MakeTime :: "int \<Rightarrow> int \<Rightarrow> int \<Rightarrow> int \<Rightarrow> int" where
  "MakeTime hour minute sec ms = hour * msPerHour + minute * msPerMinute + sec * msPerSecond + ms"

definition MakeDay :: "int \<Rightarrow> int \<Rightarrow> int \<Rightarrow> int" where
  "MakeDay year month date =
     (let ym = year + month div 12; mn = month mod 12 in
      DayFromYear ym + month_start (if DaysInYear ym = 366 then 1 else 0) mn + date - 1)"

definition MakeDate :: "int \<Rightarrow> int \<Rightarrow> int" where
  "MakeDate day time = day * msPerDay + time"

text \<open>
  \<^verbatim>\<open>Date.UTC(year, month, date, hours, minutes, seconds, ms)\<close>: a year from 0 to 99 means
  1900 to 1999, months count from 0, fields out of range carry over, and the result is
  clipped to the range of \<^verbatim>\<open>Date\<close>.
\<close>

definition Date_UTC :: "int \<Rightarrow> int \<Rightarrow> int \<Rightarrow> int \<Rightarrow> int \<Rightarrow> int \<Rightarrow> int \<Rightarrow> timeval" where
  "Date_UTC year month date hours minutes seconds ms =
     (let yr = (if 0 \<le> year \<and> year \<le> 99 then 1900 + year else year) in
      TimeClip (Ms (MakeDate (MakeDay yr month date) (MakeTime hours minutes seconds ms))))"

section \<open>Local time and formatting in a time zone\<close>

text \<open>
  The runtime's local time zone, as the two functions of the specification: the offset
  of local time from UTC at a UTC time value (\<open>LocalTZA(t, true)\<close>) and at a local time
  value (\<open>LocalTZA(t, false)\<close>).  The getters read the fields of the local time; a
  setter replaces fields of the local time and converts back.  On an Invalid Date the
  getters return NaN and the setters leave the date invalid.
\<close>

record tz =
  LocalTZA_utc :: "int \<Rightarrow> int"
  LocalTZA_local :: "int \<Rightarrow> int"

definition LocalTime :: "tz \<Rightarrow> int \<Rightarrow> int" where
  "LocalTime z t = t + LocalTZA_utc z t"

definition UTC :: "tz \<Rightarrow> int \<Rightarrow> int" where
  "UTC z t = t - LocalTZA_local z t"

definition local_field :: "(int \<Rightarrow> int) \<Rightarrow> tz \<Rightarrow> date \<Rightarrow> timeval" where
  "local_field f z d = (case getTime d of TNaN \<Rightarrow> TNaN | Ms t \<Rightarrow> Ms (f (LocalTime z t)))"

definition getFullYear :: "tz \<Rightarrow> date \<Rightarrow> timeval" where
  "getFullYear = local_field YearFromTime"

definition getMonth :: "tz \<Rightarrow> date \<Rightarrow> timeval" where
  "getMonth = local_field MonthFromTime"

definition getDate :: "tz \<Rightarrow> date \<Rightarrow> timeval" where
  "getDate = local_field DateFromTime"

definition getHours :: "tz \<Rightarrow> date \<Rightarrow> timeval" where
  "getHours = local_field HourFromTime"

definition getMinutes :: "tz \<Rightarrow> date \<Rightarrow> timeval" where
  "getMinutes = local_field MinFromTime"

definition set_local :: "tz \<Rightarrow> (int \<Rightarrow> int) \<Rightarrow> date \<Rightarrow> date" where
  "set_local z f d =
     (case getTime d of
        TNaN \<Rightarrow> Date TNaN
      | Ms t \<Rightarrow> Date (TimeClip (Ms (UTC z (f (LocalTime z t))))))"

definition setSeconds :: "tz \<Rightarrow> int \<Rightarrow> int \<Rightarrow> date \<Rightarrow> date" where
  "setSeconds z sec ms =
     set_local z (\<lambda>t. MakeDate (Day t) (MakeTime (HourFromTime t) (MinFromTime t) sec ms))"

definition setMinutes :: "tz \<Rightarrow> int \<Rightarrow> int \<Rightarrow> int \<Rightarrow> date \<Rightarrow> date" where
  "setMinutes z m sec ms =
     set_local z (\<lambda>t. MakeDate (Day t) (MakeTime (HourFromTime t) m sec ms))"

text \<open>\<^verbatim>\<open>setHours(hour)\<close> and \<^verbatim>\<open>setHours(hour, min, sec, ms)\<close>.\<close>

definition setHours :: "tz \<Rightarrow> int \<Rightarrow> date \<Rightarrow> date" where
  "setHours z h =
     set_local z (\<lambda>t. MakeDate (Day t)
       (MakeTime h (MinFromTime t) (SecFromTime t) (msFromTime t)))"

definition setHours4 :: "tz \<Rightarrow> int \<Rightarrow> int \<Rightarrow> int \<Rightarrow> int \<Rightarrow> date \<Rightarrow> date" where
  "setHours4 z h m sec ms = set_local z (\<lambda>t. MakeDate (Day t) (MakeTime h m sec ms))"

definition setDate :: "tz \<Rightarrow> int \<Rightarrow> date \<Rightarrow> date" where
  "setDate z dt =
     set_local z (\<lambda>t. MakeDate (MakeDay (YearFromTime t) (MonthFromTime t) dt)
       (TimeWithinDay t))"

text \<open>
  \<^verbatim>\<open>String(n)\<close> for an integer or NaN (decimal digits, as for every integer below
  \<open>10 ^ 21\<close>), and \<^verbatim>\<open>padStart\<close>.
\<close>

fun digits :: "nat \<Rightarrow> string" where
  "digits n =
     (if n < 10 then [char_of (48 + n)] else digits (n div 10) @ [char_of (48 + n mod 10)])"

declare digits.simps [simp del]

fun String :: "timeval \<Rightarrow> string" where
  "String TNaN = ''NaN''"
| "String (Ms i) = (if i < 0 then CHR ''-'' # digits (nat (- i)) else digits (nat i))"

definition padStart :: "nat \<Rightarrow> char \<Rightarrow> string \<Rightarrow> string" where
  "padStart n c s = replicate (n - length s) c @ s"

definition toDatetimeLocalValue :: "tz \<Rightarrow> date \<Rightarrow> string" where
  "toDatetimeLocalValue z d =
     (let y = getFullYear z d;
          m = padStart 2 CHR ''0'' (String (tv_add (getMonth z d) (Ms 1)));
          day = padStart 2 CHR ''0'' (String (getDate z d));
          hh = padStart 2 CHR ''0'' (String (getHours z d));
          mm = padStart 2 CHR ''0'' (String (getMinutes z d))
      in String y @ ''-'' @ m @ ''-'' @ day @ ''T'' @ hh @ '':'' @ mm)"

text \<open>
  \<^verbatim>\<open>Intl.DateTimeFormat('en-US', {timeZone, ...}).formatToParts(date)\<close>.  The time zone
  database is the runtime's: the model takes the zone as its offset from UTC at each
  instant, and the parts are the fields of the instant shifted by that offset, as
  numbers (the program applies \<^verbatim>\<open>Number\<close> to each part it reads).  The calendar is the
  proleptic Gregorian one.  The year is printed as the year of its era: the year itself
  from the year 1 on, and \<open>1 - y\<close> for a year \<open>y\<close> before (the year 0 is 1 BC, printed
  as 1).  The month is from 1 to 12 and, with \<^verbatim>\<open>hour12: false\<close>, the hour from 0 to 23.
  Formatting an Invalid Date throws a \<^verbatim>\<open>RangeError\<close>.
\<close>

datatype error = RangeError

record parts =
  part_year :: int
  part_month :: int
  part_day :: int
  part_hour :: int
  part_minute :: int
  part_second :: int

type_synonym zone = "int \<Rightarrow> int"

definition year_of_era :: "int \<Rightarrow> int" where
  "year_of_era y = (if y \<le> 0 then 1 - y else y)"

definition formatToParts :: "zone \<Rightarrow> date \<Rightarrow> error + parts" where
  "formatToParts zone d =
     (case getTime d of
        TNaN \<Rightarrow> Inl RangeError
      | Ms t \<Rightarrow>
          (let lt = t + zone t in
           Inr \<lparr> part_year = year_of_era (YearFromTime lt), part_month = MonthFromTime lt + 1,
                 part_day = DateFromTime lt, part_hour = HourFromTime lt,
                 part_minute = MinFromTime lt, part_second = SecFromTime lt \<rparr>))"

section \<open>The component's state\<close>

text \<open>
  The reactive fields of \<^verbatim>\<open><script setup>\<close>, the module variable \<^verbatim>\<open>tickHandle\<close>, and the
  part of the window the component acts on: the list of active repeating timers
  (\<^verbatim>\<open>window.setInterval\<close> adds one under a fresh handle, \<^verbatim>\<open>window.clearInterval\<close> removes
  the one with the given handle).  A repeating timer holds its callback, the closure
  \<^verbatim>\<open>update\<close> of \<^verbatim>\<open>start\<close> or \<^verbatim>\<open>startUntil\<close>, which captures the \<^verbatim>\<open>end\<close> date.

  One record serves the three versions.  \<^verbatim>\<open>App.vue\<close> has \<open>hovered\<close> and no pending
  fields; the second document of \<^verbatim>\<open>part_000\<close> has \<open>pendingMinutes\<close> only; the first
  document has all but \<open>hovered\<close>.  A version leaves the fields it does not have untouched.
\<close>

datatype callback =
    Update_auto date  \<comment> \<open>\<^verbatim>\<open>update\<close> of \<^verbatim>\<open>start\<close> in \<^verbatim>\<open>App.vue\<close>: clamps and stops at zero\<close>
  | Update date       \<comment> \<open>\<^verbatim>\<open>update\<close> of \<^verbatim>\<open>start\<close> and \<^verbatim>\<open>startUntil\<close> in \<^verbatim>\<open>part_000\<close>\<close>

record app =
  hovered :: "int option"
  pendingMinutes :: "int option"
  pendingExactEnd :: "date option"
  customMinutes :: string
  preciseEndLocal :: string
  running :: bool
  startTime :: "date option"
  endTime :: "date option"
  remainingMs :: timeval
  tickHandle :: "nat option"
  intervals :: "(nat \<times> callback) list"
  nextHandle :: nat

definition initial :: app where
  "initial = \<lparr> hovered = None, pendingMinutes = None, pendingExactEnd = None,
     customMinutes = [], preciseEndLocal = [], running = False, startTime = None,
     endTime = None, remainingMs = Ms 0, tickHandle = None, intervals = [],
     nextHandle = 1 \<rparr>"

text \<open>
  \<^verbatim>\<open>window.setInterval(cb, 250)\<close> returns a handle no active timer has; the model hands
  out consecutive numbers.
\<close>

definition setInterval :: "callback \<Rightarrow> app \<Rightarrow> nat \<times> app" where
  "setInterval cb s =
     (nextHandle s,
      s\<lparr> intervals := intervals s @ [(nextHandle s, cb)], nextHandle := Suc (nextHandle s) \<rparr>)"

definition clearInterval :: "nat \<Rightarrow> app \<Rightarrow> app" where
  "clearInterval h s = s\<lparr> intervals := filter (\<lambda>(k, cb). k \<noteq> h) (intervals s) \<rparr>"

section \<open>Operations shared by the three versions\<close>

definition clearTimer :: "app \<Rightarrow> app" where
  "clearTimer s =
     (case tickHandle s of
        None \<Rightarrow> s
      | Some h \<Rightarrow> (clearInterval h s)\<lparr> tickHandle := None \<rparr>)"

definition cancel :: "app \<Rightarrow> app" where
  "cancel s = (clearTimer s)\<lparr> running := False, startTime := None, endTime := None,
     remainingMs := Ms 0 \<rparr>"

text \<open>
  \<^verbatim>\<open>parsedCustomMinutes\<close>, the same in the three versions: null unless the number is finite
  and positive, else its floor.
\<close>

definition parsedCustomMinutes :: "to_number \<Rightarrow> app \<Rightarrow> int option" where
  "parsedCustomMinutes Number s =
     (let n = Number (customMinutes s) in
      if \<not> isFinite n \<or> le_zero n then None
      else (case n of Fin q \<Rightarrow> Some \<lfloor>q\<rfloor> | _ \<Rightarrow> None))"

text \<open>\<^verbatim>\<open>!v\<close> for \<^verbatim>\<open>v: number | null\<close>: null and \<open>0\<close> are falsy.\<close>

fun falsy :: "int option \<Rightarrow> bool" where
  "falsy None = True"
| "falsy (Some m) = (m = 0)"

text \<open>
  \<^verbatim>\<open>customExpiresAt\<close>; \<open>now\<close> is what \<^verbatim>\<open>Date.now()\<close> returns when the computed value is
  evaluated.
\<close>

definition customExpiresAt :: "to_number \<Rightarrow> int \<Rightarrow> app \<Rightarrow> date option" where
  "customExpiresAt Number now s =
     (if falsy (parsedCustomMinutes Number s) then None
      else Some (new_Date (Ms (now + the (parsedCustomMinutes Number s) * 60000))))"

text \<open>The \<^verbatim>\<open>:disabled="!parsedCustomMinutes"\<close> binding of the Start button.\<close>

definition custom_start_disabled :: "to_number \<Rightarrow> app \<Rightarrow> bool" where
  "custom_start_disabled Number s = falsy (parsedCustomMinutes Number s)"

section \<open>\<^verbatim>\<open>src/src/App.vue\<close>: start at once, stop at zero\<close>

text \<open>
  The closure \<^verbatim>\<open>update\<close> of \<^verbatim>\<open>start\<close>, run with the clock at \<open>now\<close>.
\<close>

definition update_auto :: "date \<Rightarrow> int \<Rightarrow> app \<Rightarrow> app" where
  "update_auto end now s =
     (let diff = tv_sub (getTime end) (Ms now);
          s1 = s\<lparr> remainingMs := Math_max (Ms 0) diff \<rparr>
      in if tv_le diff (Ms 0) then (clearTimer s1)\<lparr> running := False \<rparr> else s1)"

text \<open>
  \<^verbatim>\<open>start(minutes)\<close>; \<open>t0\<close> is the clock at \<^verbatim>\<open>new Date()\<close>, \<open>t1\<close> at the \<^verbatim>\<open>Date.now()\<close> of the
  first \<^verbatim>\<open>update()\<close>.
\<close>

definition start_auto :: "int \<Rightarrow> int \<Rightarrow> int \<Rightarrow> app \<Rightarrow> app" where
  "start_auto minutes t0 t1 s =
     (let s1 = clearTimer s;
          start = Date (Ms t0);
          end = new_Date (tv_add (getTime start) (Ms (minutes * 60000)));
          s2 = s1\<lparr> startTime := Some start, endTime := Some end, running := True \<rparr>;
          s3 = update_auto end t1 s2;
          (h, s4) = setInterval (Update_auto end) s3
      in s4\<lparr> tickHandle := Some h \<rparr>)"

definition startCustom_auto :: "to_number \<Rightarrow> int \<Rightarrow> int \<Rightarrow> app \<Rightarrow> app" where
  "startCustom_auto Number t0 t1 s =
     (if falsy (parsedCustomMinutes Number s) then s
      else (start_auto (the (parsedCustomMinutes Number s)) t0 t1 s)\<lparr> customMinutes := [] \<rparr>)"

definition hoveredExpiresAt :: "int \<Rightarrow> app \<Rightarrow> date option" where
  "hoveredExpiresAt now s =
     (if falsy (hovered s) then None
      else Some (new_Date (Ms (now + the (hovered s) * 60000))))"

section \<open>\<^verbatim>\<open>src/unnamed/part_000\<close>: choose, confirm, run past zero\<close>

text \<open>
  \<^verbatim>\<open>start\<close> and its closure \<^verbatim>\<open>update\<close> are the same in the two documents; \<^verbatim>\<open>startUntil\<close> is
  in the first only.  The remaining time is not clamped and the run does not stop.
\<close>

definition update :: "date \<Rightarrow> int \<Rightarrow> app \<Rightarrow> app" where
  "update end now s = s\<lparr> remainingMs := tv_sub (getTime end) (Ms now) \<rparr>"

definition start :: "int \<Rightarrow> int \<Rightarrow> int \<Rightarrow> app \<Rightarrow> app" where
  "start minutes t0 t1 s =
     (let s1 = clearTimer s;
          start = Date (Ms t0);
          end = new_Date (tv_add (getTime start) (Ms (minutes * 60000)));
          s2 = s1\<lparr> startTime := Some start, endTime := Some end, running := True \<rparr>;
          s3 = update end t1 s2;
          (h, s4) = setInterval (Update end) s3
      in s4\<lparr> tickHandle := Some h \<rparr>)"

definition startUntil :: "date \<Rightarrow> int \<Rightarrow> int \<Rightarrow> app \<Rightarrow> app" where
  "startUntil end t0 t1 s =
     (let s1 = clearTimer s;
          start = Date (Ms t0);
          s2 = s1\<lparr> startTime := Some start, endTime := Some end, running := True \<rparr>;
          s3 = update end t1 s2;
          (h, s4) = setInterval (Update end) s3
      in s4\<lparr> tickHandle := Some h \<rparr>)"

text \<open>
  The first document (precise end times).  The computed values that read the clock
  take the reading as \<open>now\<close>.
\<close>

definition pendingExpiresAt :: "int \<Rightarrow> app \<Rightarrow> date option" where
  "pendingExpiresAt now s =
     (case pendingExactEnd s of
        Some d \<Rightarrow> Some d
      | None \<Rightarrow>
          (case pendingMinutes s of
             None \<Rightarrow> None
           | Some m \<Rightarrow> Some (new_Date (Ms (now + m * 60000)))))"

definition parsedPreciseEnd :: "to_date \<Rightarrow> app \<Rightarrow> date option" where
  "parsedPreciseEnd parse s =
     (if preciseEndLocal s = [] then None
      else (let d = parse (preciseEndLocal s) in
            if getTime d = TNaN then None else Some d))"

definition preciseEndIsFuture :: "to_date \<Rightarrow> int \<Rightarrow> app \<Rightarrow> bool" where
  "preciseEndIsFuture parse now s =
     (case parsedPreciseEnd parse s of
        None \<Rightarrow> False
      | Some d \<Rightarrow> tv_gt (getTime d) (Ms now))"

definition startCustom :: "to_number \<Rightarrow> app \<Rightarrow> app" where
  "startCustom Number s =
     (if falsy (parsedCustomMinutes Number s) then s
      else s\<lparr> pendingExactEnd := None, pendingMinutes := parsedCustomMinutes Number s \<rparr>)"

definition choosePreset :: "int \<Rightarrow> app \<Rightarrow> app" where
  "choosePreset m s = s\<lparr> pendingExactEnd := None, pendingMinutes := Some m \<rparr>"

definition confirmStart :: "int \<Rightarrow> int \<Rightarrow> app \<Rightarrow> app" where
  "confirmStart t0 t1 s =
     (case pendingExactEnd s of
        Some d \<Rightarrow> (startUntil d t0 t1 s)\<lparr> pendingMinutes := None, pendingExactEnd := None \<rparr>
      | None \<Rightarrow>
          (case pendingMinutes s of
             Some m \<Rightarrow> (start m t0 t1 s)\<lparr> pendingMinutes := None, pendingExactEnd := None \<rparr>
           | None \<Rightarrow> s))"

definition cancelPending :: "app \<Rightarrow> app" where
  "cancelPending s = s\<lparr> pendingMinutes := None, pendingExactEnd := None \<rparr>"

definition previewPreciseEnd :: "to_date \<Rightarrow> int \<Rightarrow> app \<Rightarrow> app" where
  "previewPreciseEnd parse now s =
     (if \<not> preciseEndIsFuture parse now s \<or> parsedPreciseEnd parse s = None then s
      else s\<lparr> pendingMinutes := None, pendingExactEnd := parsedPreciseEnd parse s \<rparr>)"

text \<open>
  The shortcut to 5:00 PM Eastern Time.  \<^verbatim>\<open>getOffsetMs\<close> and \<^verbatim>\<open>zonedTimeToUtc\<close> are the
  closures of \<^verbatim>\<open>shortcutEndOfDay\<close>; \<open>zone\<close> is \<^verbatim>\<open>America/New_York\<close> in the runtime's time zone
  database.  \<open>targetMs\<close> is the value of the variable \<^verbatim>\<open>targetMs\<close> when \<^verbatim>\<open>shortcutEndOfDay\<close>
  reaches \<^verbatim>\<open>setPrecise\<close>, with the clock at \<open>now\<close> when it started.
\<close>

definition getOffsetMs :: "zone \<Rightarrow> timeval \<Rightarrow> error + timeval" where
  "getOffsetMs zone ts =
     (case formatToParts zone (new_Date ts) of
        Inl e \<Rightarrow> Inl e
      | Inr m \<Rightarrow>
          (let asUTC = Date_UTC (part_year m) (part_month m - 1) (part_day m)
                         (part_hour m) (part_minute m) (part_second m) 0
           in Inr (tv_sub asUTC ts)))"

definition zonedTimeToUtc :: "zone \<Rightarrow> int \<Rightarrow> int \<Rightarrow> int \<Rightarrow> int \<Rightarrow> int \<Rightarrow> error + timeval" where
  "zonedTimeToUtc zone y mo d h mi =
     (let initial = Date_UTC y (mo - 1) d h mi 0 0 in
      case getOffsetMs zone initial of
        Inl e \<Rightarrow> Inl e
      | Inr off1 \<Rightarrow>
          (let guess = tv_sub initial off1 in
           case getOffsetMs zone guess of
             Inl e \<Rightarrow> Inl e
           | Inr off2 \<Rightarrow> Inr (tv_sub initial off2)))"

definition targetMs :: "zone \<Rightarrow> int \<Rightarrow> error + timeval" where
  "targetMs zone now =
     (case formatToParts zone (Date (Ms now)) of
        Inl e \<Rightarrow> Inl e
      | Inr p \<Rightarrow>
          (case zonedTimeToUtc zone (part_year p) (part_month p) (part_day p) 17 0 of
             Inl e \<Rightarrow> Inl e
           | Inr today \<Rightarrow>
               if tv_le today (Ms now) then
                 (case zonedTimeToUtc zone (part_year p) (part_month p) (part_day p) 12 0 of
                    Inl e \<Rightarrow> Inl e
                  | Inr noon \<Rightarrow>
                      (let todayInEt = new_Date noon;
                           tomorrowEt = new_Date (tv_add (getTime todayInEt) (Ms (24 * 60 * 60 * 1000)))
                       in case formatToParts zone tomorrowEt of
                            Inl e \<Rightarrow> Inl e
                          | Inr mt \<Rightarrow>
                              zonedTimeToUtc zone (part_year mt) (part_month mt) (part_day mt) 17 0))
               else Inr today))"

text \<open>
  \<^verbatim>\<open>setPrecise\<close> and the shortcuts; \<open>z\<close> is the local time zone, \<open>t0\<close> the clock at
  \<^verbatim>\<open>new Date()\<close> and \<open>t1\<close> (\<open>now\<close> in \<^verbatim>\<open>setPrecise\<close>) at the later \<^verbatim>\<open>Date.now()\<close>.
\<close>

definition setPrecise :: "tz \<Rightarrow> date \<Rightarrow> int \<Rightarrow> app \<Rightarrow> app" where
  "setPrecise z date now s =
     (let date' = setSeconds z 0 0 date;
          s1 = s\<lparr> preciseEndLocal := toDatetimeLocalValue z date' \<rparr>
      in if tv_gt (getTime date') (Ms now)
         then s1\<lparr> pendingMinutes := None, pendingExactEnd := Some date' \<rparr>
         else s1)"

definition shortcutHalfPast :: "tz \<Rightarrow> int \<Rightarrow> int \<Rightarrow> app \<Rightarrow> app" where
  "shortcutHalfPast z t0 t1 s =
     (let now = Date (Ms t0);
          d = (if tv_ge (getMinutes z now) (Ms 30)
               then (case getHours z now of TNaN \<Rightarrow> Date TNaN | Ms h \<Rightarrow> setHours z (h + 1) now)
               else now)
      in setPrecise z (setMinutes z 30 0 0 d) t1 s)"

definition shortcutEndOfHour :: "tz \<Rightarrow> int \<Rightarrow> int \<Rightarrow> app \<Rightarrow> app" where
  "shortcutEndOfHour z t0 t1 s =
     (let now = Date (Ms t0);
          d = setMinutes z 59 0 0 now;
          d' = (if tv_le (getTime d) (getTime now)
                then setMinutes z 59 0 0
                       (case getHours z d of TNaN \<Rightarrow> Date TNaN | Ms h \<Rightarrow> setHours z (h + 1) d)
                else d)
      in setPrecise z d' t1 s)"

definition shortcutNextHour :: "tz \<Rightarrow> int \<Rightarrow> int \<Rightarrow> app \<Rightarrow> app" where
  "shortcutNextHour z t0 t1 s =
     (let now = Date (Ms t0);
          d = (case getHours z now of TNaN \<Rightarrow> Date TNaN | Ms h \<Rightarrow> setHours4 z (h + 1) 0 0 0 now)
      in setPrecise z d t1 s)"

definition shortcutNoon :: "tz \<Rightarrow> int \<Rightarrow> int \<Rightarrow> app \<Rightarrow> app" where
  "shortcutNoon z t0 t1 s =
     (let now = Date (Ms t0);
          d = setHours4 z 12 0 0 0 now;
          d' = (if tv_le (getTime d) (getTime now)
                then (case getDate z d of TNaN \<Rightarrow> Date TNaN | Ms dt \<Rightarrow> setDate z (dt + 1) d)
                else d)
      in setPrecise z d' t1 s)"

definition shortcutEndOfDay :: "zone \<Rightarrow> tz \<Rightarrow> int \<Rightarrow> int \<Rightarrow> app \<Rightarrow> error + app" where
  "shortcutEndOfDay zone z t0 t1 s =
     (case targetMs zone t0 of
        Inl e \<Rightarrow> Inl e
      | Inr target \<Rightarrow> Inr (setPrecise z (new_Date target) t1 s))"

text \<open>The second document (no precise end times).\<close>

definition pendingExpiresAt_simple :: "int \<Rightarrow> app \<Rightarrow> date option" where
  "pendingExpiresAt_simple now s =
     (case pendingMinutes s of
        None \<Rightarrow> None
      | Some m \<Rightarrow> Some (new_Date (Ms (now + m * 60000))))"

definition startCustom_simple :: "to_number \<Rightarrow> app \<Rightarrow> app" where
  "startCustom_simple Number s =
     (if falsy (parsedCustomMinutes Number s) then s
      else s\<lparr> pendingMinutes := parsedCustomMinutes Number s \<rparr>)"

definition choosePreset_simple :: "int \<Rightarrow> app \<Rightarrow> app" where
  "choosePreset_simple m s = s\<lparr> pendingMinutes := Some m \<rparr>"

definition confirmStart_simple :: "int \<Rightarrow> int \<Rightarrow> app \<Rightarrow> app" where
  "confirmStart_simple t0 t1 s =
     (case pendingMinutes s of
        None \<Rightarrow> s
      | Some m \<Rightarrow> (start m t0 t1 s)\<lparr> pendingMinutes := None \<rparr>)"

definition cancelPending_simple :: "app \<Rightarrow> app" where
  "cancelPending_simple s = s\<lparr> pendingMinutes := None \<rparr>"

text \<open>
  A tick: the window runs the callback of the repeating timer \<open>h\<close>, if that timer is
  active, with the clock at \<open>now\<close>.
\<close>

fun run_callback :: "callback \<Rightarrow> int \<Rightarrow> app \<Rightarrow> app" where
  "run_callback (Update_auto end) now s = update_auto end now s"
| "run_callback (Update end) now s = update end now s"

definition tick :: "nat \<Rightarrow> int \<Rightarrow> app \<Rightarrow> app" where
  "tick h now s =
     (case map_of (intervals s) h of
        None \<Rightarrow> s
      | Some cb \<Rightarrow> run_callback cb now s)"

section \<open>Runs of the component\<close>

text \<open>
  The events each version reacts to: edits of its input fields, clicks on its buttons,
  ticks of a repeating timer and unmounting.  An event carries the clock readings its
  handler takes.  Every event may occur in every state, also where the template hides
  the control.  \<^verbatim>\<open>shortcutEndOfDay\<close> changes the state in its last statement only, so an
  exception thrown before leaves the state as it was.  \<open>runtime\<close> collects what the
  handlers take from the runtime: the two conversions of strings, the local time zone
  and the zone \<^verbatim>\<open>America/New_York\<close>.
\<close>

record runtime =
  number_of :: to_number
  date_of :: to_date
  local_zone :: tz
  eastern_zone :: zone

datatype event =
    Input_customMinutes string
  | Input_preciseEndLocal string
  | ChoosePreset int
  | StartCustom
  | ConfirmStart int int
  | CancelPending
  | PreviewPreciseEnd int
  | ShortcutHalfPast int int
  | ShortcutEndOfHour int int
  | ShortcutNextHour int int
  | ShortcutNoon int int
  | ShortcutEndOfDay int int
  | Cancel
  | Tick nat int
  | Unmount

fun step :: "runtime \<Rightarrow> app \<Rightarrow> event \<Rightarrow> app" where
  "step rt s (Input_customMinutes v) = s\<lparr> customMinutes := v \<rparr>"
| "step rt s (Input_preciseEndLocal v) = s\<lparr> preciseEndLocal := v \<rparr>"
| "step rt s (ChoosePreset m) = choosePreset m s"
| "step rt s StartCustom = startCustom (number_of rt) s"
| "step rt s (ConfirmStart t0 t1) = confirmStart t0 t1 s"
| "step rt s CancelPending = cancelPending s"
| "step rt s (PreviewPreciseEnd now) = previewPreciseEnd (date_of rt) now s"
| "step rt s (ShortcutHalfPast t0 t1) = shortcutHalfPast (local_zone rt) t0 t1 s"
| "step rt s (ShortcutEndOfHour t0 t1) = shortcutEndOfHour (local_zone rt) t0 t1 s"
| "step rt s (ShortcutNextHour t0 t1) = shortcutNextHour (local_zone rt) t0 t1 s"
| "step rt s (ShortcutNoon t0 t1) = shortcutNoon (local_zone rt) t0 t1 s"
| "step rt s (ShortcutEndOfDay t0 t1) =
     (case shortcutEndOfDay (eastern_zone rt) (local_zone rt) t0 t1 s of Inl e \<Rightarrow> s | Inr s' \<Rightarrow> s')"
| "step rt s Cancel = cancel s"
| "step rt s (Tick h now) = tick h now s"
| "step rt s Unmount = clearTimer s"

datatype event_simple =
    Input_customMinutes_simple string
  | ChoosePreset_simple int
  | StartCustom_simple
  | ConfirmStart_simple int int
  | CancelPending_simple
  | Cancel_simple
  | Tick_simple nat int
  | Unmount_simple

fun step_simple :: "to_number \<Rightarrow> app \<Rightarrow> event_simple \<Rightarrow> app" where
  "step_simple N s (Input_customMinutes_simple v) = s\<lparr> customMinutes := v \<rparr>"
| "step_simple N s (ChoosePreset_simple m) = choosePreset_simple m s"
| "step_simple N s StartCustom_simple = startCustom_simple N s"
| "step_simple N s (ConfirmStart_simple t0 t1) = confirmStart_simple t0 t1 s"
| "step_simple N s CancelPending_simple = cancelPending_simple s"
| "step_simple N s Cancel_simple = cancel s"
| "step_simple N s (Tick_simple h now) = tick h now s"
| "step_simple N s Unmount_simple = clearTimer s"

datatype event_auto =
    Hover "int option"
  | Input_customMinutes_auto string
  | Start_auto int int int
  | StartCustom_auto int int
  | Cancel_auto
  | Tick_auto nat int
  | Unmount_auto

fun step_auto :: "to_number \<Rightarrow> app \<Rightarrow> event_auto \<Rightarrow> app" where
  "step_auto N s (Hover m) = s\<lparr> hovered := m \<rparr>"
| "step_auto N s (Input_customMinutes_auto v) = s\<lparr> customMinutes := v \<rparr>"
| "step_auto N s (Start_auto m t0 t1) = start_auto m t0 t1 s"
| "step_auto N s (StartCustom_auto t0 t1) = startCustom_auto N t0 t1 s"
| "step_auto N s Cancel_auto = cancel s"
| "step_auto N s (Tick_auto h now) = tick h now s"
| "step_auto N s Unmount_auto = clearTimer s"

text \<open>
  The handles of the active repeating timers are exactly the handle the component
  holds: none, or the one in \<^verbatim>\<open>tickHandle\<close>.
\<close>

definition one_ticker :: "app \<Rightarrow> bool" where
  "one_ticker s \<longleftrightarrow>
     map fst (intervals s) = (case tickHandle s of None \<Rightarrow> [] | Some h \<Rightarrow> [h])"

text \<open>
  A stronger description of the same states, with the callbacks: the active repeating
  timer, if there is one, is the \<^verbatim>\<open>update\<close> closure that \<^verbatim>\<open>start\<close> built for the expiry now
  in \<^verbatim>\<open>endTime\<close>; \<open>mk\<close> is the closure of the version.
\<close>

definition ticker_shape :: "(date \<Rightarrow> callback) \<Rightarrow> app \<Rightarrow> bool" where
  "ticker_shape mk s \<longleftrightarrow>
     intervals s =
       (case tickHandle s of
          None \<Rightarrow> []
        | Some h \<Rightarrow> (case endTime s of None \<Rightarrow> [] | Some e \<Rightarrow> [(h, mk e)])) \<and>
     (tickHandle s \<noteq> None \<longrightarrow> endTime s \<noteq> None)"

text \<open>At most one of the two pending fields is set.\<close>

definition one_pending :: "app \<Rightarrow> bool" where
  "one_pending s \<longleftrightarrow> pendingMinutes s = None \<or> pendingExactEnd s = None"

section \<open>The runtime's \<^verbatim>\<open>Number(string)\<close>\<close>

text \<open>
  ECMAScript's \<open>StringToNumber\<close> on strings of code units below 256: white space is
  trimmed, the empty string is \<open>0\<close>, then a signed decimal literal (digits, a fraction, an
  exponent, or \<^verbatim>\<open>Infinity\<close>) or an unsigned hexadecimal, octal or binary integer literal;
  anything else is NaN.  The value is the literal's exact mathematical value: rounding to
  binary64 is not modelled, so \<open>Number_js\<close> is the runtime's conversion on the strings
  whose value is a binary64 number, as are all the strings evaluated below.  The
  theorems about the component hold for every conversion \<open>Number\<close>; \<open>Number_js\<close> serves
  their examples.
\<close>

definition StrWhiteSpaceChar :: "char \<Rightarrow> bool" where
  "StrWhiteSpaceChar c = (of_char c \<in> set [9, 10, 11, 12, 13, 32, 160 :: nat])"

definition trim :: "string \<Rightarrow> string" where
  "trim s = rev (dropWhile StrWhiteSpaceChar (rev (dropWhile StrWhiteSpaceChar s)))"

definition digit_value :: "char \<Rightarrow> nat option" where
  "digit_value c =
     (if c \<in> set ''0123456789'' then Some (of_char c - 48)
      else if c \<in> set ''abcdef'' then Some (of_char c - 87)
      else if c \<in> set ''ABCDEF'' then Some (of_char c - 55)
      else None)"

definition is_digit :: "nat \<Rightarrow> char \<Rightarrow> bool" where
  "is_digit b c = (case digit_value c of None \<Rightarrow> False | Some d \<Rightarrow> d < b)"

definition digits_value :: "nat \<Rightarrow> string \<Rightarrow> nat" where
  "digits_value b s = foldl (\<lambda>a c. a * b + the (digit_value c)) 0 s"

fun negate :: "number \<Rightarrow> number" where
  "negate (Fin q) = Fin (- q)"
| "negate PosInf = NegInf"
| "negate NegInf = PosInf"
| "negate NaN = NaN"

definition StrUnsignedDecimalLiteral :: "string \<Rightarrow> number" where
  "StrUnsignedDecimalLiteral s =
     (if s = ''Infinity'' then PosInf
      else
        (let ip = takeWhile (is_digit 10) s;
             r1 = dropWhile (is_digit 10) s;
             dot = (r1 \<noteq> [] \<and> hd r1 = CHR ''.'');
             fp = (if dot then takeWhile (is_digit 10) (tl r1) else []);
             r2 = (if dot then dropWhile (is_digit 10) (tl r1) else r1);
             mant = (of_nat (digits_value 10 ip) + of_nat (digits_value 10 fp) / 10 ^ length fp :: rat)
         in if ip = [] \<and> fp = [] then NaN
            else if r2 = [] then Fin mant
            else if hd r2 \<in> set ''eE'' then
              (let r3 = tl r2;
                   neg = (r3 \<noteq> [] \<and> hd r3 = CHR ''-'');
                   ds = (if r3 \<noteq> [] \<and> hd r3 \<in> set ''+-'' then tl r3 else r3)
               in if ds = [] \<or> \<not> list_all (is_digit 10) ds then NaN
                  else Fin (if neg then mant / 10 ^ digits_value 10 ds
                            else mant * 10 ^ digits_value 10 ds))
            else NaN))"

definition NonDecimalIntegerLiteral :: "nat \<Rightarrow> string \<Rightarrow> number" where
  "NonDecimalIntegerLiteral b ds =
     (if ds \<noteq> [] \<and> list_all (is_digit b) ds then Fin (of_nat (digits_value b ds)) else NaN)"

definition Number_js :: to_number where
  "Number_js s =
     (let t = trim s in
      if t = [] then Fin 0
      else if take 2 t \<in> set [''0x'', ''0X''] then NonDecimalIntegerLiteral 16 (drop 2 t)
      else if take 2 t \<in> set [''0o'', ''0O''] then NonDecimalIntegerLiteral 8 (drop 2 t)
      else if take 2 t \<in> set [''0b'', ''0B''] then NonDecimalIntegerLiteral 2 (drop 2 t)
      else if hd t = CHR ''+'' then StrUnsignedDecimalLiteral (tl t)
      else if hd t = CHR ''-'' then negate (StrUnsignedDecimalLiteral (tl t))
      else StrUnsignedDecimalLiteral t)"

section \<open>A model of \<^verbatim>\<open>America/New_York\<close>\<close>

text \<open>
  \<^verbatim>\<open>America/New_York\<close> as the time zone database has it.  Until 1883-11-18T17:00:00Z the
  zone keeps local mean time, 4:56:02 behind UTC.  From then on it keeps Eastern Standard
  Time, UTC-5, or one of the daylight, war and peace times, UTC-4.  The changes of the
  database until 2006 are in \<open>new_york_transitions\<close>, each as the instant (in seconds
  since the epoch) from which an offset (in seconds) holds.  From 2007 on the rule in
  force applies: daylight time from the second Sunday of March at 2:00 EST (07:00 UTC) to
  the first Sunday of November at 2:00 EDT (06:00 UTC).  Day 0 of the epoch is a Thursday,
  so the weekday of a day number \<open>d\<close> is \<open>(d + 4) mod 7\<close>, Sunday being 0.
\<close>

fun offset_at :: "(int \<times> int) list \<Rightarrow> int \<Rightarrow> int \<Rightarrow> int" where
  "offset_at [] cur t = cur"
| "offset_at ((T, off) # rest) cur t = (if t < T then cur else offset_at rest off t)"

definition new_york_transitions :: "(int \<times> int) list" where
  "new_york_transitions = [
     (- 2717650800, - 18000), (- 1633280400, - 14400), (- 1615140000, - 18000),
     (- 1601830800, - 14400), (- 1583690400, - 18000), (- 1570381200, - 14400),
     (- 1551636000, - 18000), (- 1536512400, - 14400), (- 1523210400, - 18000),
     (- 1504458000, - 14400), (- 1491760800, - 18000), (- 1473008400, - 14400),
     (- 1459706400, - 18000), (- 1441558800, - 14400), (- 1428256800, - 18000),
     (- 1410109200, - 14400), (- 1396807200, - 18000), (- 1378659600, - 14400),
     (- 1365357600, - 18000), (- 1347210000, - 14400), (- 1333908000, - 18000),
     (- 1315155600, - 14400), (- 1301853600, - 18000), (- 1283706000, - 14400),
     (- 1270404000, - 18000), (- 1252256400, - 14400), (- 1238954400, - 18000),
     (- 1220806800, - 14400), (- 1207504800, - 18000), (- 1189357200, - 14400),
     (- 1176055200, - 18000), (- 1157302800, - 14400), (- 1144605600, - 18000),
     (- 1125853200, - 14400), (- 1112551200, - 18000), (- 1094403600, - 14400),
     (- 1081101600, - 18000), (- 1062954000, - 14400), (- 1049652000, - 18000),
     (- 1031504400, - 14400), (- 1018202400, - 18000), (- 1000054800, - 14400),
     (- 986752800, - 18000), (- 968000400, - 14400), (- 955303200, - 18000),
     (- 936550800, - 14400), (- 923248800, - 18000), (- 905101200, - 14400),
     (- 891799200, - 18000), (- 880218000, - 14400), (- 769395600, - 14400),
     (- 765396000, - 18000), (- 747248400, - 14400), (- 733946400, - 18000),
     (- 715798800, - 14400), (- 702496800, - 18000), (- 684349200, - 14400),
     (- 671047200, - 18000), (- 652899600, - 14400), (- 639597600, - 18000),
     (- 620845200, - 14400), (- 608148000, - 18000), (- 589395600, - 14400),
     (- 576093600, - 18000), (- 557946000, - 14400), (- 544644000, - 18000),
     (- 526496400, - 14400), (- 513194400, - 18000), (- 495046800, - 14400),
     (- 481744800, - 18000), (- 463597200, - 14400), (- 447271200, - 18000),
     (- 431542800, - 14400), (- 415821600, - 18000), (- 400093200, - 14400),
     (- 384372000, - 18000), (- 368643600, - 14400), (- 352922400, - 18000),
     (- 337194000, - 14400), (- 321472800, - 18000), (- 305744400, - 14400),
     (- 289418400, - 18000), (- 273690000, - 14400), (- 257968800, - 18000),
     (- 242240400, - 14400), (- 226519200, - 18000), (- 210790800, - 14400),
     (- 195069600, - 18000), (- 179341200, - 14400), (- 163620000, - 18000),
     (- 147891600, - 14400), (- 131565600, - 18000), (- 116442000, - 14400),
     (- 100116000, - 18000), (- 84387600, - 14400), (- 68666400, - 18000),
     (- 52938000, - 14400), (- 37216800, - 18000), (- 21488400, - 14400),
     (- 5767200, - 18000), (9961200, - 14400), (25682400, - 18000),
     (41410800, - 14400), (57736800, - 18000), (73465200, - 14400),
     (89186400, - 18000), (104914800, - 14400), (120636000, - 18000),
     (126687600, - 14400), (152085600, - 18000), (162370800, - 14400),
     (183535200, - 18000), (199263600, - 14400), (215589600, - 18000),
     (230713200, - 14400), (247039200, - 18000), (262767600, - 14400),
     (278488800, - 18000), (294217200, - 14400), (309938400, - 18000),
     (325666800, - 14400), (341388000, - 18000), (357116400, - 14400),
     (372837600, - 18000), (388566000, - 14400), (404892000, - 18000),
     (420015600, - 14400), (436341600, - 18000), (452070000, - 14400),
     (467791200, - 18000), (483519600, - 14400), (499240800, - 18000),
     (514969200, - 14400), (530690400, - 18000), (544604400, - 14400),
     (562140000, - 18000), (576054000, - 14400), (594194400, - 18000),
     (607503600, - 14400), (625644000, - 18000), (638953200, - 14400),
     (657093600, - 18000), (671007600, - 14400), (688543200, - 18000),
     (702457200, - 14400), (719992800, - 18000), (733906800, - 14400),
     (752047200, - 18000), (765356400, - 14400), (783496800, - 18000),
     (796806000, - 14400), (814946400, - 18000), (828860400, - 14400),
     (846396000, - 18000), (860310000, - 14400), (877845600, - 18000),
     (891759600, - 14400), (909295200, - 18000), (923209200, - 14400),
     (941349600, - 18000), (954658800, - 14400), (972799200, - 18000),
     (986108400, - 14400), (1004248800, - 18000), (1018162800, - 14400),
     (1035698400, - 18000), (1049612400, - 14400), (1067148000, - 18000),
     (1081062000, - 14400), (1099202400, - 18000), (1112511600, - 14400),
     (1130652000, - 18000), (1143961200, - 14400), (1162101600, - 18000)]"

definition first_sunday_from :: "int \<Rightarrow> int" where
  "first_sunday_from d = d + (7 - (d + 4) mod 7) mod 7"

definition new_york_rule :: zone where
  "new_york_rule t =
     (let y = YearFromTime t;
          dst_start = first_sunday_from (MakeDay y 2 8) * msPerDay + 7 * msPerHour;
          dst_end = first_sunday_from (MakeDay y 10 1) * msPerDay + 6 * msPerHour
      in if dst_start \<le> t \<and> t < dst_end then - 4 * msPerHour else - 5 * msPerHour)"

text \<open>The year 2007 begins at \<open>1167609600000\<close>.\<close>

definition new_york :: zone where
  "new_york t =
     (if 1167609600000 \<le> t then new_york_rule t
      else 1000 * offset_at new_york_transitions (- 17762) (t div 1000))"

text \<open>
  What the conversion to 17:00 needs of the zone: the offset is a whole number of
  seconds from five to four hours behind UTC, and on no day does it change after
  17:00 UTC and until 22:00 UTC (the changes of \<^verbatim>\<open>America/New_York\<close> are at 06:00 and
  07:00 UTC, and once, in 1883, at 17:00 UTC).
\<close>

definition eastern_like :: "zone \<Rightarrow> bool" where
  "eastern_like zone \<longleftrightarrow>
     (\<forall>t. - 5 * msPerHour \<le> zone t \<and> zone t \<le> - 4 * msPerHour \<and> zone t mod 1000 = 0) \<and>
     (\<forall>t u. Day t = Day u \<and>
        17 * msPerHour \<le> TimeWithinDay t \<and> TimeWithinDay t \<le> 22 * msPerHour \<and>
        17 * msPerHour \<le> TimeWithinDay u \<and> TimeWithinDay u \<le> 22 * msPerHour
        \<longrightarrow> zone t = zone u)"

section \<open>Properties\<close>

subsection \<open>Calendar arithmetic\<close>

lemma div_bounds:
  fixes a n :: int
  assumes "0 < n"
  shows "n * (a div n) \<le> a" and "a < n * (a div n) + n"
  using assms mult_div_mod_eq [of n a] pos_mod_bound [of n a] pos_mod_sign [of n a]
  by linarith+

lemma leap_days_bounds:
  fixes k :: int
  shows "0 \<le> k \<Longrightarrow> (k + 1) div 4 - (k + 69) div 100 + (k + 369) div 400 \<le> k"
    and "k < 0 \<Longrightarrow> (k + 1) div 4 - (k + 69) div 100 + (k + 369) div 400 \<le> 0"
proof -
  have q4: "4 * ((k + 1) div 4) \<le> k + 1" "k + 1 < 4 * ((k + 1) div 4) + 4"
    by (rule div_bounds; simp)+
  have q100: "100 * ((k + 69) div 100) \<le> k + 69" "k + 69 < 100 * ((k + 69) div 100) + 100"
    by (rule div_bounds; simp)+
  have q400: "400 * ((k + 369) div 400) \<le> k + 369" "k + 369 < 400 * ((k + 369) div 400) + 400"
    by (rule div_bounds; simp)+
  show "(k + 1) div 4 - (k + 69) div 100 + (k + 369) div 400 \<le> k" if "0 \<le> k"
  proof (cases "k \<le> 30")
    case True
    with that q100 q400 have "(k + 69) div 100 = 0" "(k + 369) div 400 = 0" by linarith+
    with that q4 show ?thesis by linarith
  next
    case False
    with q4 q100 q400 show ?thesis by linarith
  qed
  show "(k + 1) div 4 - (k + 69) div 100 + (k + 369) div 400 \<le> 0" if "k < 0"
  proof (cases "- 69 \<le> k")
    case True
    with that q100 q400 have "(k + 69) div 100 = 0" "(k + 369) div 400 = 0" by linarith+
    with that q4 show ?thesis by linarith
  next
    case False
    with q4 q100 q400 show ?thesis by linarith
  qed
qed

lemma DayFromYear_1970:
  "DayFromYear (1970 + k) = 365 * k + ((k + 1) div 4 - (k + 69) div 100 + (k + 369) div 400)"
proof -
  have args: "1970 + k - 1970 = k" "1970 + k - 1969 = k + 1" "1970 + k - 1901 = k + 69"
    "1970 + k - 1601 = k + 369"
    by simp_all
  show ?thesis
    unfolding DayFromYear_def args by linarith
qed

lemma year_estimate_le: "DayFromYear (year_estimate d) \<le> d"
proof (cases "0 \<le> d")
  case True
  define k where "k = d div 366"
  have k: "0 \<le> k" "366 * k \<le> d"
    using True div_bounds(1) [of 366 d] by (simp_all add: k_def)
  from leap_days_bounds(1) [OF k(1)] have "DayFromYear (1970 + k) \<le> 366 * k"
    unfolding DayFromYear_1970 by linarith
  with k True show ?thesis by (simp add: year_estimate_def k_def)
next
  case False
  define k where "k = d div 365"
  have "365 * k \<le> d" "d < 365 * k + 365"
    using div_bounds [of 365 d] by (simp_all add: k_def)
  with False have k: "k < 0" "365 * k \<le> d" by linarith+
  from leap_days_bounds(2) [OF k(1)] have "DayFromYear (1970 + k) \<le> 365 * k"
    unfolding DayFromYear_1970 by linarith
  with k False show ?thesis by (simp add: year_estimate_def k_def)
qed

lemma year_from_spec:
  "DayFromYear y \<le> d \<Longrightarrow>
     DayFromYear (year_from d y) \<le> d \<and> d < DayFromYear (year_from d y + 1)"
proof (induction d y rule: year_from.induct)
  case (1 d y)
  show ?case
  proof (cases "DayFromYear (y + 1) \<le> d")
    case True
    with 1 show ?thesis by (simp add: year_from.simps [of d y])
  next
    case False
    with 1 show ?thesis by (simp add: year_from.simps [of d y])
  qed
qed

lemma YearFromDay_spec:
  "DayFromYear (YearFromDay d) \<le> d" "d < DayFromYear (YearFromDay d + 1)"
  using year_from_spec [OF year_estimate_le] by (simp_all add: YearFromDay_def)

lemma MonthFromTime_range: "0 \<le> MonthFromTime t" "MonthFromTime t \<le> 11"
  by (simp_all add: MonthFromTime_def Let_def)

lemma MakeDay_fields: "MakeDay (YearFromTime t) (MonthFromTime t) (DateFromTime t) = Day t"
proof -
  have "MonthFromTime t div 12 = 0" "MonthFromTime t mod 12 = MonthFromTime t"
    using MonthFromTime_range [of t] by simp_all
  then show ?thesis
    by (simp add: MakeDay_def DateFromTime_def DayWithinYear_def InLeapYear_def)
qed

lemma time_split:
  fixes t :: int
  shows "t div 3600000 mod 24 * 3600000 + t div 60000 mod 60 * 60000 + t div 1000 mod 60 * 1000 + 0
           = t mod 86400000 - t mod 1000"
proof -
  have a: "t mod 60000 = 1000 * (t div 1000 mod 60) + t mod 1000"
    using zmod_zmult2_eq [of 60 t 1000] by simp
  have b: "t mod 3600000 = 60000 * (t div 60000 mod 60) + t mod 60000"
    using zmod_zmult2_eq [of 60 t 60000] by simp
  have c: "t mod 86400000 = 3600000 * (t div 3600000 mod 24) + t mod 3600000"
    using zmod_zmult2_eq [of 24 t 3600000] by simp
  show ?thesis
    by (simp only: c b a)
qed

lemma MakeTime_fields:
  "MakeTime (HourFromTime t) (MinFromTime t) (SecFromTime t) 0 = TimeWithinDay t - t mod 1000"
  by (simp only: MakeTime_def HourFromTime_def MinFromTime_def SecFromTime_def TimeWithinDay_def
      msPerHour_def msPerMinute_def msPerSecond_def msPerDay_def time_split)

lemma MakeDate_Day: "MakeDate (Day t) (TimeWithinDay t) = t"
  by (simp add: MakeDate_def Day_def TimeWithinDay_def)

lemma DayFromYear_mono: "a \<le> b \<Longrightarrow> DayFromYear a \<le> DayFromYear b"
proof (induction "nat (b - a)" arbitrary: b)
  case 0
  then show ?case by simp
next
  case (Suc n)
  then have "DayFromYear a \<le> DayFromYear (b - 1)" by simp
  with DayFromYear_less [of "b - 1"] show ?case by simp
qed

lemma YearFromDay_unique:
  assumes "DayFromYear y \<le> d" and "d < DayFromYear (y + 1)"
  shows "YearFromDay d = y"
proof (rule ccontr)
  assume ne: "YearFromDay d \<noteq> y"
  note s = YearFromDay_spec [of d]
  show False
  proof (cases "YearFromDay d < y")
    case True
    then have "DayFromYear (YearFromDay d + 1) \<le> DayFromYear y"
      by (intro DayFromYear_mono) simp
    with s(2) assms(1) show False by simp
  next
    case False
    with ne have "DayFromYear (y + 1) \<le> DayFromYear (YearFromDay d)"
      by (intro DayFromYear_mono) simp
    with s(1) assms(2) show False by simp
  qed
qed

lemma YearFromTime_ge:
  assumes "DayFromYear y * msPerDay \<le> t"
  shows "y \<le> YearFromTime t"
proof (rule ccontr)
  assume "\<not> y \<le> YearFromTime t"
  then have "YearFromTime t + 1 \<le> y" by simp
  from DayFromYear_mono [OF this] YearFromDay_spec(2) [of "Day t"]
  have "Day t < DayFromYear y" by (simp add: YearFromTime_def)
  then have "Day t + 1 \<le> DayFromYear y" by simp
  then have "(Day t + 1) * msPerDay \<le> DayFromYear y * msPerDay"
    by (simp add: msPerDay_def)
  moreover have "t < (Day t + 1) * msPerDay"
    using div_bounds(2) [of msPerDay t] by (simp add: Day_def msPerDay_def algebra_simps)
  ultimately show False using assms by linarith
qed

text \<open>Reading the fields of a time value and passing them to Date.UTC gives it back,
  to the second.\<close>

lemma Date_UTC_fields:
  assumes "DayFromYear 100 * msPerDay \<le> t" and "t \<le> maxTime"
  shows "Date_UTC (YearFromTime t) (MonthFromTime t) (DateFromTime t)
           (HourFromTime t) (MinFromTime t) (SecFromTime t) 0 = Ms (t - t mod 1000)"
proof -
  from YearFromTime_ge [OF assms(1)] have y: "\<not> (0 \<le> YearFromTime t \<and> YearFromTime t \<le> 99)"
    by simp
  have v: "MakeDate (MakeDay (YearFromTime t) (MonthFromTime t) (DateFromTime t))
             (MakeTime (HourFromTime t) (MinFromTime t) (SecFromTime t) 0) = t - t mod 1000"
    using MakeDate_Day [of t] by (simp add: MakeDay_fields MakeTime_fields MakeDate_def)
  have m: "0 \<le> t mod 1000" "t mod 1000 < 1000" by simp_all
  have "- 59011459200000 \<le> t"
    using assms(1) by (simp add: DayFromYear_def msPerDay_def)
  with m assms(2) have "\<bar>t - t mod 1000\<bar> \<le> maxTime"
    unfolding maxTime_def by linarith
  then show ?thesis
    unfolding Date_UTC_def Let_def if_not_P [OF y] v by simp
qed

lemma Day_of:
  assumes "0 \<le> x" and "x < 86400000"
  shows "Day (D * 86400000 + x) = D" and "TimeWithinDay (D * 86400000 + x) = x"
proof -
  have "D * 86400000 + x = 86400000 * D + x" by simp
  then show "Day (D * 86400000 + x) = D" "TimeWithinDay (D * 86400000 + x) = x"
    unfolding Day_def TimeWithinDay_def msPerDay_def
    using assms int_div_pos_eq [of "D * 86400000 + x" 86400000 D x]
      int_mod_pos_eq [of "D * 86400000 + x" 86400000 D x]
    by simp_all
qed

lemma Day_split: "t = Day t * msPerDay + TimeWithinDay t"
  by (simp add: Day_def TimeWithinDay_def)

lemma TimeWithinDay_range: "0 \<le> TimeWithinDay t" "TimeWithinDay t < msPerDay"
  by (simp_all add: TimeWithinDay_def msPerDay_def)

lemma mod_1000_add:
  fixes a b :: int
  assumes "a mod 1000 = 0" and "b mod 1000 = 0"
  shows "(a + b) mod 1000 = 0"
proof -
  from assms have "1000 dvd a" "1000 dvd b" by (simp_all add: mod_eq_0_iff_dvd)
  then have "1000 dvd a + b" by (rule dvd_add)
  then show ?thesis by simp
qed

lemma year_100: "DayFromYear 100 * msPerDay = - 59011459200000"
  by (simp add: DayFromYear_def msPerDay_def)

lemma Day_bounds: "Day t * 86400000 \<le> t" "t < Day t * 86400000 + 86400000"
  using div_bounds [of 86400000 t] by (simp_all add: Day_def msPerDay_def)

text \<open>
  \<open>MakeDay\<close> is stated with a day number; the specification asks for the day of a time
  value whose year, month and date are the given year, the given month and 1.  The day
  number used is that day.
\<close>

lemma MakeDay_first_of_month:
  assumes "0 \<le> mn" and "mn \<le> 11"
  shows "YearFromTime (MakeDate (MakeDay ym mn 1) 0) = ym"
    and "MonthFromTime (MakeDate (MakeDay ym mn 1) 0) = mn"
    and "DateFromTime (MakeDate (MakeDay ym mn 1) 0) = 1"
proof -
  define l :: int where "l = (if DaysInYear ym = 366 then 1 else 0)"
  define t where "t = MakeDate (MakeDay ym mn 1) 0"
  have l: "l = 0 \<or> l = 1" "DaysInYear ym = 365 + l"
    using DaysInYear_bounds [of ym] by (auto simp: l_def DaysInYear_def)
  have mn: "mn div 12 = 0" "mn mod 12 = mn"
    using assms by simp_all
  have md: "MakeDay ym mn 1 = DayFromYear ym + month_start l mn"
    by (simp add: MakeDay_def mn l_def)
  have ms: "0 \<le> month_start l mn" "month_start l mn < 365 + l"
    using l(1) by (auto simp: month_start_def)
  have day: "Day t = DayFromYear ym + month_start l mn"
    unfolding t_def md MakeDate_def msPerDay_def
    using Day_of(1) [of 0 "DayFromYear ym + month_start l mn"] by simp
  have y: "YearFromTime t = ym"
    unfolding YearFromTime_def day
    using ms l(2) by (intro YearFromDay_unique) (simp_all add: DayFromYear_Suc)
  then show "YearFromTime (MakeDate (MakeDay ym mn 1) 0) = ym"
    by (simp add: t_def)
  have dwy: "DayWithinYear t = month_start l mn" "InLeapYear t = l"
    by (simp_all add: DayWithinYear_def InLeapYear_def y day l_def)
  have cases: "mn \<in> {0, 1, 2, 3, 4, 5, 6, 7, 8, 9, 10, 11}"
    using assms by simp presburger
  have m: "MonthFromTime t = mn"
    unfolding MonthFromTime_def dwy Let_def
    using l(1) cases by (elim disjE insertE emptyE; simp add: month_start_def)
  then show "MonthFromTime (MakeDate (MakeDay ym mn 1) 0) = mn"
    by (simp add: t_def)
  show "DateFromTime (MakeDate (MakeDay ym mn 1) 0) = 1"
    unfolding t_def [symmetric] DateFromTime_def dwy m by simp
qed

lemma Date_UTC_of_fields:
  assumes "- 59011459200000 \<le> lt" and "\<bar>Day lt * 86400000 + (h * 3600000 + mi * 60000)\<bar> \<le> maxTime"
  shows "Date_UTC (YearFromTime lt) (MonthFromTime lt + 1 - 1) (DateFromTime lt) h mi 0 0
           = Ms (Day lt * 86400000 + (h * 3600000 + mi * 60000))"
proof -
  from assms(1) have "DayFromYear 100 * msPerDay \<le> lt" by (simp add: year_100)
  from YearFromTime_ge [OF this]
  have y: "\<not> (0 \<le> YearFromTime lt \<and> YearFromTime lt \<le> 99)" by simp
  have v: "MakeDate (MakeDay (YearFromTime lt) (MonthFromTime lt + 1 - 1) (DateFromTime lt))
             (MakeTime h mi 0 0) = Day lt * 86400000 + (h * 3600000 + mi * 60000)"
    by (simp add: MakeDay_fields MakeDate_def MakeTime_def msPerDay_def msPerHour_def
        msPerMinute_def)
  show ?thesis
    unfolding Date_UTC_def Let_def if_not_P [OF y] v using assms(2) by simp
qed

lemma fields_at_17:
  "HourFromTime (D * 86400000 + 61200000) = 17" "MinFromTime (D * 86400000 + 61200000) = 0"
  "SecFromTime (D * 86400000 + 61200000) = 0"
proof -
  have h: "D * 86400000 + 61200000 = 3600000 * (24 * D + 17) + 0" by simp
  have "(D * 86400000 + 61200000) div 3600000 = 24 * D + 17"
    by (rule int_div_pos_eq [OF h]) simp_all
  then show "HourFromTime (D * 86400000 + 61200000) = 17"
    by (simp add: HourFromTime_def msPerHour_def)
  have m: "D * 86400000 + 61200000 = 60000 * (60 * (24 * D + 17)) + 0" by simp
  have "(D * 86400000 + 61200000) div 60000 = 60 * (24 * D + 17)"
    by (rule int_div_pos_eq [OF m]) simp_all
  then show "MinFromTime (D * 86400000 + 61200000) = 0"
    by (simp add: MinFromTime_def msPerMinute_def)
  have s: "D * 86400000 + 61200000 = 1000 * (60 * (60 * (24 * D + 17))) + 0" by simp
  have "(D * 86400000 + 61200000) div 1000 = 60 * (60 * (24 * D + 17))"
    by (rule int_div_pos_eq [OF s]) simp_all
  then show "SecFromTime (D * 86400000 + 61200000) = 0"
    by (simp add: SecFromTime_def msPerSecond_def)
qed

subsection \<open>The zoned conversion\<close>

lemma YearFromTime_less:
  assumes "t < DayFromYear y * msPerDay"
  shows "YearFromTime t < y"
proof (rule ccontr)
  assume "\<not> YearFromTime t < y"
  then have "y \<le> YearFromTime t" by simp
  from DayFromYear_mono [OF this] YearFromDay_spec(1) [of "Day t"]
  have "DayFromYear y \<le> Day t" by (simp add: YearFromTime_def)
  then have "DayFromYear y * msPerDay \<le> Day t * msPerDay"
    by (simp add: msPerDay_def)
  moreover have "Day t * msPerDay \<le> t"
    using Day_bounds(1) [of t] by (simp add: msPerDay_def)
  ultimately show False using assms by linarith
qed

lemma DateFromTime_range: "1 \<le> DateFromTime t" "DateFromTime t \<le> 31"
proof -
  define y where "y = YearFromTime t"
  define l where "l = InLeapYear t"
  define n where "n = DayWithinYear t"
  have s: "DayFromYear y \<le> Day t" "Day t < DayFromYear (y + 1)"
    using YearFromDay_spec [of "Day t"] by (simp_all add: y_def YearFromTime_def)
  have l: "l = 0 \<or> l = 1" "DaysInYear y = 365 + l"
    using DaysInYear_bounds [of y] by (auto simp: l_def InLeapYear_def y_def DaysInYear_def)
  have n: "0 \<le> n" "n < 365 + l"
    using s l(2) by (simp_all add: n_def DayWithinYear_def y_def [symmetric] DayFromYear_Suc)
  have "1 \<le> DateFromTime t \<and> DateFromTime t \<le> 31"
    unfolding DateFromTime_def MonthFromTime_def Let_def l_def [symmetric] n_def [symmetric]
      month_start_def
    using n l(1) by auto
  then show "1 \<le> DateFromTime t" "DateFromTime t \<le> 31" by simp_all
qed

lemma Date_UTC_value:
  assumes "Date_UTC y m d h mi 0 0 = Ms c"
  shows "\<bar>c\<bar> \<le> maxTime" and "c mod 1000 = 0"
    and "\<exists>D. c = D * 86400000 + (h * 3600000 + mi * 60000)"
proof -
  define yr where "yr = (if 0 \<le> y \<and> y \<le> 99 then 1900 + y else y)"
  from assms have v: "c = MakeDate (MakeDay yr m d) (MakeTime h mi 0 0)" and r: "\<bar>c\<bar> \<le> maxTime"
    by (auto simp: Date_UTC_def yr_def Let_def split: if_splits)
  show "\<bar>c\<bar> \<le> maxTime" by (rule r)
  from v have "c = 1000 * (MakeDay yr m d * 86400 + h * 3600 + mi * 60)"
    by (simp add: MakeDate_def MakeTime_def msPerDay_def msPerHour_def msPerMinute_def)
  then show "c mod 1000 = 0" by simp
  from v have "c = MakeDay yr m d * 86400000 + (h * 3600000 + mi * 60000)"
    by (simp add: MakeDate_def MakeTime_def msPerDay_def msPerHour_def msPerMinute_def)
  then show "\<exists>D. c = D * 86400000 + (h * 3600000 + mi * 60000)" ..
qed

lemma formatToParts_valid:
  "formatToParts zone (Date (Ms t)) =
     Inr \<lparr> part_year = year_of_era (YearFromTime (t + zone t)),
           part_month = MonthFromTime (t + zone t) + 1,
           part_day = DateFromTime (t + zone t), part_hour = HourFromTime (t + zone t),
           part_minute = MinFromTime (t + zone t), part_second = SecFromTime (t + zone t) \<rparr>"
  by (simp add: formatToParts_def Let_def)

lemma year_of_era_100:
  assumes "- 59011459200000 \<le> t"
  shows "year_of_era (YearFromTime t) = YearFromTime t"
proof -
  from assms have "DayFromYear 100 * msPerDay \<le> t" by (simp add: year_100)
  from YearFromTime_ge [OF this] show ?thesis by (simp add: year_of_era_def)
qed

text \<open>
  For a local time in the year 100 or later, \<^verbatim>\<open>getOffsetMs\<close> returns the offset of the
  zone.
\<close>

lemma getOffsetMs_exact:
  assumes "zone t mod 1000 = 0" and "t mod 1000 = 0"
    and "- 59011459200000 \<le> t + zone t" and "t + zone t \<le> maxTime"
    and "\<bar>t\<bar> \<le> maxTime"
  shows "getOffsetMs zone (Ms t) = Inr (Ms (zone t))"
proof -
  have "(t + zone t) mod 1000 = 0"
    using assms(2,1) by (rule mod_1000_add)
  moreover from assms(3) have "DayFromYear 100 * msPerDay \<le> t + zone t"
    by (simp add: year_100)
  ultimately
  have "Date_UTC (YearFromTime (t + zone t)) (MonthFromTime (t + zone t))
          (DateFromTime (t + zone t)) (HourFromTime (t + zone t)) (MinFromTime (t + zone t))
          (SecFromTime (t + zone t)) 0 = Ms (t + zone t)"
    using Date_UTC_fields [OF _ assms(4)] by simp
  then show ?thesis
    using assms(5) year_of_era_100 [OF assms(3)]
    by (simp add: getOffsetMs_def formatToParts_def new_Date_def Let_def)
qed

lemma zonedTimeToUtc_exact:
  assumes z: "\<And>t. zone t mod 1000 = 0"
    and init: "Date_UTC y (mo - 1) d h mi 0 0 = Ms c"
    and l1: "- 59011459200000 \<le> c + zone c" and h1: "c + zone c \<le> maxTime"
    and v2: "\<bar>c - zone c\<bar> \<le> maxTime"
    and l2: "- 59011459200000 \<le> c - zone c + zone (c - zone c)"
    and h2: "c - zone c + zone (c - zone c) \<le> maxTime"
  shows "getOffsetMs zone (Ms c) = Inr (Ms (zone c))"
    and "getOffsetMs zone (Ms (c - zone c)) = Inr (Ms (zone (c - zone c)))"
    and "zonedTimeToUtc zone y mo d h mi = Inr (Ms (c - zone (c - zone c)))"
proof -
  note c = Date_UTC_value [OF init]
  show off1: "getOffsetMs zone (Ms c) = Inr (Ms (zone c))"
    using z c(2) l1 h1 c(1) by (rule getOffsetMs_exact)
  have "(- zone c) mod 1000 = 0"
    using z [of c] by (simp add: mod_eq_0_iff_dvd)
  with c(2) have g1000: "(c - zone c) mod 1000 = 0"
    using mod_1000_add [of c "- zone c"] by simp
  show off2: "getOffsetMs zone (Ms (c - zone c)) = Inr (Ms (zone (c - zone c)))"
    using z g1000 l2 h2 v2 by (rule getOffsetMs_exact)
  show "zonedTimeToUtc zone y mo d h mi = Inr (Ms (c - zone (c - zone c)))"
    by (simp add: zonedTimeToUtc_def init off1 off2)
qed

lemma eastern_like_offsets:
  assumes "eastern_like zone"
  shows "- 18000000 \<le> zone t" and "zone t \<le> - 14400000" and "zone t mod 1000 = 0"
  using assms by (simp_all add: eastern_like_def msPerHour_def)

lemma eastern_like_stable:
  assumes "eastern_like zone" and "61200000 \<le> a" and "a \<le> 79200000" and "61200000 \<le> b"
    and "b \<le> 79200000"
  shows "zone (D * 86400000 + a) = zone (D * 86400000 + b)"
proof -
  have d: "Day (D * 86400000 + a) = Day (D * 86400000 + b)"
    using assms(2-5) by (simp add: Day_of)
  have w: "17 * msPerHour \<le> TimeWithinDay (D * 86400000 + a)"
    "TimeWithinDay (D * 86400000 + a) \<le> 22 * msPerHour"
    "17 * msPerHour \<le> TimeWithinDay (D * 86400000 + b)"
    "TimeWithinDay (D * 86400000 + b) \<le> 22 * msPerHour"
    using assms(2-5) by (simp_all add: Day_of msPerHour_def)
  from assms(1) have "\<forall>t u. Day t = Day u \<and>
        17 * msPerHour \<le> TimeWithinDay t \<and> TimeWithinDay t \<le> 22 * msPerHour \<and>
        17 * msPerHour \<le> TimeWithinDay u \<and> TimeWithinDay u \<le> 22 * msPerHour
        \<longrightarrow> zone t = zone u"
    unfolding eastern_like_def by (rule conjunct2)
  with d w show ?thesis by blast
qed

text \<open>
  The conversion of 17:00 on a date, in a zone as above: the result is the candidate
  minus the offset at the candidate, and its local time is the candidate.
\<close>

lemma zonedTimeToUtc_17:
  assumes E: "eastern_like zone" and init: "Date_UTC y (mo - 1) d 17 0 0 0 = Ms c"
    and lo: "- 59011459200000 + 18000000 \<le> c" and hi: "c \<le> maxTime - 18000000"
  shows "zonedTimeToUtc zone y mo d 17 0 = Inr (Ms (c - zone c))"
    and "zone (c - zone c) = zone c"
    and "HourFromTime c = 17" and "MinFromTime c = 0" and "SecFromTime c = 0"
proof -
  from Date_UTC_value(3) [OF init] obtain D where c: "c = D * 86400000 + 61200000"
    by auto
  note z = eastern_like_offsets [OF E]
  show same: "zone (c - zone c) = zone c"
  proof -
    have "zone (D * 86400000 + (61200000 - zone c)) = zone (D * 86400000 + 61200000)"
      using E
    proof (rule eastern_like_stable)
      show "61200000 \<le> 61200000 - zone c" "61200000 - zone c \<le> 79200000"
        using z(1,2) [of c] by linarith+
    qed simp_all
    then have st: "zone (D * 86400000 + (61200000 - zone c)) = zone c"
      by (simp only: c [symmetric])
    have g: "c - zone c = D * 86400000 + (61200000 - zone c)"
      by (simp add: c)
    show ?thesis by (simp only: g st)
  qed
  have "zonedTimeToUtc zone y mo d 17 0 = Inr (Ms (c - zone (c - zone c)))"
    using z(3) init
  proof (rule zonedTimeToUtc_exact)
    show "- 59011459200000 \<le> c + zone c" using lo z(1) [of c] by linarith
    show "c + zone c \<le> maxTime" using hi z(2) [of c] by linarith
    show "\<bar>c - zone c\<bar> \<le> maxTime"
      using lo hi z(1,2) [of c] unfolding maxTime_def by linarith
    show "- 59011459200000 \<le> c - zone c + zone (c - zone c)"
      unfolding same using lo by simp
    show "c - zone c + zone (c - zone c) \<le> maxTime"
      unfolding same using hi by simp
  qed
  then show "zonedTimeToUtc zone y mo d 17 0 = Inr (Ms (c - zone c))"
    by (simp add: same)
  show "HourFromTime c = 17" "MinFromTime c = 0" "SecFromTime c = 0"
    unfolding c by (rule fields_at_17)+
qed

text \<open>
  \<^verbatim>\<open>shortcutEndOfDay\<close> when the local date of \<open>now\<close> is in the year 100 or later: the target
  is the next 17:00 of the zone.
\<close>

lemma targetMs_next_17:
  assumes E: "eastern_like zone" and lo: "- 59011459200000 \<le> now + zone now"
    and hi: "now < maxTime - 10800000"
  shows "\<exists>today target.
           zonedTimeToUtc zone (YearFromTime (now + zone now)) (MonthFromTime (now + zone now) + 1)
             (DateFromTime (now + zone now)) 17 0 = Inr (Ms today) \<and>
           today + zone today = Day (now + zone now) * 86400000 + 61200000 \<and>
           targetMs zone now = Inr (Ms target) \<and>
           now < target \<and>
           (now < today \<longrightarrow> target = today) \<and>
           (today \<le> now \<longrightarrow>
              target + zone target = (Day (now + zone now) + 1) * 86400000 + 61200000) \<and>
           HourFromTime (target + zone target) = 17 \<and>
           MinFromTime (target + zone target) = 0 \<and>
           SecFromTime (target + zone target) = 0"
proof -
  define lt where "lt = now + zone now"
  define D where "D = Day lt"
  define c where "c = D * 86400000 + 61200000"
  define today where "today = c - zone c"
  note z = eastern_like_offsets [OF E]
  note d = Day_bounds [of lt, folded D_def]
  have ltlo: "- 59011459200000 \<le> lt"
    using lo by (simp add: lt_def)
  have Dlo: "- 683003 \<le> D"
  proof (rule ccontr)
    assume "\<not> - 683003 \<le> D"
    then have "D * 86400000 + 86400000 \<le> - 683003 * 86400000" by simp
    with d(2) ltlo show False by simp
  qed
  have Dhi: "D \<le> 99999999"
  proof (rule ccontr)
    assume "\<not> D \<le> 99999999"
    then have "100000000 * 86400000 \<le> D * 86400000" by simp
    with d(1) hi z(2) [of now] show False unfolding lt_def maxTime_def by simp
  qed
  have crange: "- 59011459200000 + 61200000 \<le> c" "c \<le> maxTime - 25200000"
    using Dlo Dhi unfolding c_def maxTime_def by simp_all
  have init: "Date_UTC (YearFromTime lt) (MonthFromTime lt + 1 - 1) (DateFromTime lt) 17 0 0 0
      = Ms c"
    using Date_UTC_of_fields [OF ltlo, of 17 0] crange
    unfolding c_def D_def maxTime_def by simp
  have t17: "zonedTimeToUtc zone (YearFromTime lt) (MonthFromTime lt + 1) (DateFromTime lt) 17 0
      = Inr (Ms today)"
    and z17: "zone today = zone c"
    unfolding today_def
    using zonedTimeToUtc_17(1,2) [OF E init] crange by simp_all
  have loc17: "today + zone today = c"
    unfolding z17 by (simp add: today_def)
  have parts: "formatToParts zone (Date (Ms now)) =
     Inr \<lparr> part_year = YearFromTime lt, part_month = MonthFromTime lt + 1,
           part_day = DateFromTime lt, part_hour = HourFromTime lt,
           part_minute = MinFromTime lt, part_second = SecFromTime lt \<rparr>"
    using year_of_era_100 [OF ltlo] unfolding lt_def by (simp add: formatToParts_valid)
  show ?thesis
  proof (cases "now < today")
    case True
    then have "targetMs zone now = Inr (Ms today)"
      by (simp add: targetMs_def parts t17)
    moreover have "HourFromTime (today + zone today) = 17"
      "MinFromTime (today + zone today) = 0" "SecFromTime (today + zone today) = 0"
      unfolding loc17 c_def by (rule fields_at_17)+
    ultimately show ?thesis
      using True t17 loc17 unfolding lt_def [symmetric] c_def D_def by auto
  next
    case False
    have Dhi': "D \<le> 99999998"
    proof (rule ccontr)
      assume "\<not> D \<le> 99999998"
      then have "99999999 * 86400000 \<le> D * 86400000" by simp
      with False hi z(2) [of c] show False
        unfolding today_def c_def maxTime_def by simp
    qed
    define c12 where "c12 = D * 86400000 + 43200000"
    define g12 where "g12 = c12 - zone c12"
    define noon where "noon = c12 - zone g12"
    have c12range: "- 59011459200000 + 43200000 \<le> c12" "c12 \<le> maxTime - 129600000"
      using Dlo Dhi' unfolding c12_def maxTime_def by simp_all
    have init12: "Date_UTC (YearFromTime lt) (MonthFromTime lt + 1 - 1) (DateFromTime lt) 12 0 0 0
        = Ms c12"
      using Date_UTC_of_fields [OF ltlo, of 12 0] c12range
      unfolding c12_def D_def maxTime_def by simp
    have n12: "zonedTimeToUtc zone (YearFromTime lt) (MonthFromTime lt + 1) (DateFromTime lt) 12 0
      = Inr (Ms noon)"
      unfolding noon_def g12_def using z(3) init12
    proof (rule zonedTimeToUtc_exact(3))
      show "- 59011459200000 \<le> c12 + zone c12"
        using c12range z(1) [of c12] by linarith
      show "c12 + zone c12 \<le> maxTime"
        using c12range z(2) [of c12] unfolding maxTime_def by linarith
      show "\<bar>c12 - zone c12\<bar> \<le> maxTime"
        using c12range z(1,2) [of c12] unfolding maxTime_def by linarith
      show "- 59011459200000 \<le> c12 - zone c12 + zone (c12 - zone c12)"
        using c12range z(2) [of c12] z(1) [of "c12 - zone c12"] by linarith
      show "c12 - zone c12 + zone (c12 - zone c12) \<le> maxTime"
        using c12range z(1) [of c12] z(2) [of "c12 - zone c12"] unfolding maxTime_def
        by linarith
    qed
    define tomorrow where "tomorrow = noon + 86400000"
    define lt1 where "lt1 = tomorrow + zone tomorrow"
    define x where "x = 43200000 - zone g12 + zone tomorrow"
    have x: "0 \<le> x" "x < 86400000"
      using z(1,2) [of g12] z(1,2) [of tomorrow] unfolding x_def by linarith+
    have lt1: "lt1 = (D + 1) * 86400000 + x"
      unfolding lt1_def tomorrow_def noon_def c12_def x_def by (simp add: algebra_simps)
    then have D1: "Day lt1 = D + 1"
      using Day_of(1) [OF x, of "D + 1"] by simp
    have D1': "(D + 1) * 86400000 = D * 86400000 + 86400000" by simp
    have nr: "\<bar>noon\<bar> \<le> maxTime" "\<bar>tomorrow\<bar> \<le> maxTime"
      using c12range z(1,2) [of g12] unfolding tomorrow_def noon_def maxTime_def by linarith+
    have lt1lo: "- 59011459200000 \<le> lt1"
      using Dlo x(1) unfolding lt1 D1' by simp
    define c' where "c' = (D + 1) * 86400000 + 61200000"
    define target where "target = c' - zone c'"
    have c'range: "- 59011459200000 + 61200000 \<le> c'" "c' \<le> maxTime - 25200000"
      using Dlo Dhi' unfolding c'_def maxTime_def by simp_all
    have init': "Date_UTC (YearFromTime lt1) (MonthFromTime lt1 + 1 - 1) (DateFromTime lt1)
        17 0 0 0 = Ms c'"
      using Date_UTC_of_fields [OF lt1lo, of 17 0] c'range
      unfolding c'_def D1 maxTime_def by simp
    have t17': "zonedTimeToUtc zone (YearFromTime lt1) (MonthFromTime lt1 + 1) (DateFromTime lt1)
        17 0 = Inr (Ms target)"
      and z17': "zone target = zone c'"
      unfolding target_def
      using zonedTimeToUtc_17(1,2) [OF E init'] c'range by simp_all
    have loc: "target + zone target = c'"
      unfolding z17' by (simp add: target_def)
    have parts1: "formatToParts zone (Date (Ms tomorrow)) =
       Inr \<lparr> part_year = YearFromTime lt1, part_month = MonthFromTime lt1 + 1,
           part_day = DateFromTime lt1, part_hour = HourFromTime lt1,
           part_minute = MinFromTime lt1, part_second = SecFromTime lt1 \<rparr>"
      using year_of_era_100 [OF lt1lo] unfolding lt1_def by (simp add: formatToParts_valid)
    have "targetMs zone now = Inr (Ms target)"
      using False nr
      by (simp add: targetMs_def parts t17 n12 new_Date_def tomorrow_def [symmetric] parts1 t17')
    moreover have "now < target"
      using d(2) z(1) [of now] z(2) [of c'] D1'
      unfolding target_def c'_def lt_def by linarith
    moreover have "HourFromTime (target + zone target) = 17"
      "MinFromTime (target + zone target) = 0" "SecFromTime (target + zone target) = 0"
      unfolding loc c'_def by (rule fields_at_17)+
    ultimately show ?thesis
      using False t17 loc17 loc unfolding lt_def [symmetric] c_def c'_def D_def by auto
  qed
qed

text \<open>
  When the local date of \<open>now\<close> is before the year 100, the year that the formatter
  prints is read by \<^verbatim>\<open>Date.UTC\<close> as a year from 100 on: the candidate is the 17:00 of a
  later year, and \<^verbatim>\<open>shortcutEndOfDay\<close> keeps the instant it resolves for it.
\<close>

lemma targetMs_early_years:
  assumes E: "eastern_like zone" and lo: "- maxTime \<le> now"
    and hi: "now + zone now < - 59011459200000"
  shows "\<exists>target. targetMs zone now = Inr (Ms target) \<and> now < target \<and>
           HourFromTime (target + zone target) = 17 \<and>
           MinFromTime (target + zone target) = 0 \<and>
           SecFromTime (target + zone target) = 0"
proof -
  define lt where "lt = now + zone now"
  define y where "y = YearFromTime lt"
  define Y where
    "Y = (if 0 \<le> year_of_era y \<and> year_of_era y \<le> 99 then 1900 + year_of_era y
          else year_of_era y)"
  define m where "m = MonthFromTime lt"
  define dt where "dt = DateFromTime lt"
  define l :: int where "l = (if DaysInYear Y = 366 then 1 else 0)"
  define Dc where "Dc = MakeDay Y m dt"
  define c where "c = Dc * 86400000 + 61200000"
  define today where "today = c - zone c"
  note z = eastern_like_offsets [OF E]
  have "lt < DayFromYear 100 * msPerDay"
    using hi by (simp add: lt_def year_100)
  then have yhi: "y < 100"
    unfolding y_def by (rule YearFromTime_less)
  have "DayFromYear (- 271821) * msPerDay \<le> lt"
    using lo z(1) [of now] unfolding lt_def maxTime_def
    by (simp add: DayFromYear_def msPerDay_def)
  then have ylo: "- 271821 \<le> y"
    unfolding y_def by (rule YearFromTime_ge)
  have Y: "100 \<le> Y" "Y \<le> 271822"
    using yhi ylo by (auto simp: Y_def year_of_era_def)
  have m: "0 \<le> m" "m \<le> 11"
    unfolding m_def by (rule MonthFromTime_range)+
  have dt: "1 \<le> dt" "dt \<le> 31"
    unfolding dt_def by (rule DateFromTime_range)+
  have l: "l = 0 \<or> l = 1"
    by (simp add: l_def)
  have ms: "0 \<le> month_start l m" "month_start l m \<le> 335"
    using l by (auto simp: month_start_def)
  have "m div 12 = 0" "m mod 12 = m"
    using m by simp_all
  then have Dc: "Dc = DayFromYear Y + month_start l m + dt - 1"
    by (simp add: Dc_def MakeDay_def l_def)
  have "DayFromYear 100 \<le> DayFromYear Y" "DayFromYear Y \<le> DayFromYear 271822"
    using Y by (intro DayFromYear_mono; simp)+
  then have "- 683003 \<le> DayFromYear Y" "DayFromYear Y \<le> 98561419"
    by (simp_all add: DayFromYear_def)
  with ms dt have Dcr: "- 683003 \<le> Dc" "Dc \<le> 98561785"
    unfolding Dc by linarith+
  have crange: "- 59011459200000 + 61200000 \<le> c" "c \<le> maxTime - 18000000"
    using Dcr unfolding c_def maxTime_def by simp_all
  have init: "Date_UTC (year_of_era y) (m + 1 - 1) dt 17 0 0 0 = Ms c"
    using crange
    by (simp add: Date_UTC_def Y_def [symmetric] Dc_def [symmetric] c_def MakeDate_def
        MakeTime_def msPerDay_def msPerHour_def msPerMinute_def maxTime_def)
  have t17: "zonedTimeToUtc zone (year_of_era y) (m + 1) dt 17 0 = Inr (Ms today)"
    and z17: "zone today = zone c"
    unfolding today_def
    using zonedTimeToUtc_17(1,2) [OF E init] crange by simp_all
  have loc17: "today + zone today = c"
    unfolding z17 by (simp add: today_def)
  have parts: "formatToParts zone (Date (Ms now)) =
     Inr \<lparr> part_year = year_of_era y, part_month = m + 1,
           part_day = dt, part_hour = HourFromTime lt,
           part_minute = MinFromTime lt, part_second = SecFromTime lt \<rparr>"
    unfolding lt_def y_def m_def dt_def by (simp add: formatToParts_valid)
  have after: "now < today"
    using hi z(1) [of now] z(2) [of c] crange(1) unfolding today_def by linarith
  then have "targetMs zone now = Inr (Ms today)"
    by (simp add: targetMs_def parts t17)
  moreover have "HourFromTime (today + zone today) = 17"
    "MinFromTime (today + zone today) = 0" "SecFromTime (today + zone today) = 0"
    unfolding loc17 c_def by (rule fields_at_17)+
  ultimately show ?thesis
    using after by blast
qed

text \<open>
  In the last hours of the range of \<^verbatim>\<open>Date\<close>, once the 17:00 of the last full day
  (\<open>8639999974800000\<close> as a local time) has passed, the next day's 17:00 is beyond the
  range: the date that \<^verbatim>\<open>tomorrowEt\<close> holds is invalid and formatting it throws.
\<close>

lemma targetMs_end_of_range:
  assumes E: "eastern_like zone" and hi: "now \<le> maxTime"
    and passed: "8639999974800000 - zone 8639999974800000 \<le> now"
  shows "targetMs zone now = Inl RangeError"
proof -
  define lt where "lt = now + zone now"
  define c :: int where "c = 99999999 * 86400000 + 61200000"
  define today where "today = c - zone c"
  note z = eastern_like_offsets [OF E]
  have c: "c = 8639999974800000" by (simp add: c_def)
  have ltr: "- 59011459200000 \<le> lt" "0 \<le> lt - 99999999 * 86400000"
    "lt - 99999999 * 86400000 < 86400000"
    using hi passed z(1,2) [of now] z(2) [of 8639999974800000]
    unfolding lt_def maxTime_def by linarith+
  have "lt = 99999999 * 86400000 + (lt - 99999999 * 86400000)" by simp
  then have D: "Day lt = 99999999"
    using Day_of(1) [OF ltr(2,3), of 99999999] by simp
  have init: "Date_UTC (YearFromTime lt) (MonthFromTime lt + 1 - 1) (DateFromTime lt) 17 0 0 0
      = Ms c"
    using Date_UTC_of_fields [OF ltr(1), of 17 0]
    unfolding D c_def maxTime_def by simp
  have t17: "zonedTimeToUtc zone (YearFromTime lt) (MonthFromTime lt + 1) (DateFromTime lt) 17 0
      = Inr (Ms today)"
    unfolding today_def
    using zonedTimeToUtc_17(1) [OF E init] by (simp add: c maxTime_def)
  have parts: "formatToParts zone (Date (Ms now)) =
     Inr \<lparr> part_year = YearFromTime lt, part_month = MonthFromTime lt + 1,
           part_day = DateFromTime lt, part_hour = HourFromTime lt,
           part_minute = MinFromTime lt, part_second = SecFromTime lt \<rparr>"
    using year_of_era_100 [OF ltr(1)] unfolding lt_def by (simp add: formatToParts_valid)
  have le: "today \<le> now"
    using passed by (simp add: today_def c)
  define c12 :: int where "c12 = 99999999 * 86400000 + 43200000"
  define g12 where "g12 = c12 - zone c12"
  define noon where "noon = c12 - zone g12"
  have init12: "Date_UTC (YearFromTime lt) (MonthFromTime lt + 1 - 1) (DateFromTime lt) 12 0 0 0
      = Ms c12"
    using Date_UTC_of_fields [OF ltr(1), of 12 0]
    unfolding D c12_def maxTime_def by simp
  have n12: "zonedTimeToUtc zone (YearFromTime lt) (MonthFromTime lt + 1) (DateFromTime lt) 12 0
      = Inr (Ms noon)"
    unfolding noon_def g12_def using z(3) init12
  proof (rule zonedTimeToUtc_exact(3))
    show "- 59011459200000 \<le> c12 + zone c12"
      using z(1) [of c12] unfolding c12_def by linarith
    show "c12 + zone c12 \<le> maxTime"
      using z(2) [of c12] unfolding c12_def maxTime_def by linarith
    show "\<bar>c12 - zone c12\<bar> \<le> maxTime"
      using z(1,2) [of c12] unfolding c12_def maxTime_def by linarith
    show "- 59011459200000 \<le> c12 - zone c12 + zone (c12 - zone c12)"
      using z(2) [of c12] z(1) [of "c12 - zone c12"] unfolding c12_def by linarith
    show "c12 - zone c12 + zone (c12 - zone c12) \<le> maxTime"
      using z(1) [of c12] z(2) [of "c12 - zone c12"] unfolding c12_def maxTime_def
      by linarith
  qed
  have nr: "\<bar>noon\<bar> \<le> maxTime" "maxTime < noon + 86400000"
    using z(1,2) [of g12] unfolding noon_def c12_def maxTime_def by linarith+
  have "formatToParts zone (Date TNaN) = Inl RangeError"
    by (simp add: formatToParts_def)
  with le nr show ?thesis
    by (simp add: targetMs_def parts t17 n12 new_Date_def)
qed

subsection \<open>The offsets of \<^verbatim>\<open>America/New_York\<close>\<close>

lemma offset_at_cases: "offset_at tbl cur t = cur \<or> offset_at tbl cur t \<in> snd ` set tbl"
proof (induction tbl arbitrary: cur)
  case Nil
  show ?case by simp
next
  case (Cons p tbl)
  obtain T off where p: "p = (T, off)" by (cases p)
  from Cons [of off] show ?case by (auto simp: p)
qed

lemma offset_at_stable:
  assumes "\<And>T off. (T, off) \<in> set tbl \<Longrightarrow> T \<le> a \<or> b < T"
    and "a \<le> t" and "t \<le> b" and "a \<le> u" and "u \<le> b"
  shows "offset_at tbl cur t = offset_at tbl cur u"
  using assms
proof (induction tbl arbitrary: cur)
  case Nil
  then show ?case by simp
next
  case (Cons p tbl)
  obtain T off where p: "p = (T, off)" by (cases p)
  from Cons.prems(1) [of T off] have "T \<le> a \<or> b < T" by (simp add: p)
  moreover have "offset_at tbl off t = offset_at tbl off u"
    by (rule Cons.IH) (use Cons.prems in auto)
  ultimately show ?case
    using Cons.prems(2-5) by (auto simp: p)
qed

lemma new_york_transitions_offsets:
  "\<forall>p \<in> set new_york_transitions. snd p = - 18000 \<or> snd p = - 14400"
  by code_simp

lemma new_york_transitions_times:
  "\<forall>p \<in> set new_york_transitions. fst p mod 86400 \<le> 61200 \<or> 79200 < fst p mod 86400"
  by code_simp

lemma outside_window:
  fixes T :: int
  assumes "T mod 86400 \<le> 61200 \<or> 79200 < T mod 86400"
  shows "T \<le> D * 86400 + 61200 \<or> D * 86400 + 79200 < T"
proof -
  define q where "q = T div 86400"
  define r where "r = T mod 86400"
  have T: "T = 86400 * q + r" by (simp add: q_def r_def)
  have r: "0 \<le> r" "r < 86400" by (simp_all add: r_def)
  from assms have a: "r \<le> 61200 \<or> 79200 < r" by (simp add: r_def)
  consider "q < D" | "q = D" | "D < q" by linarith
  then show ?thesis
  proof cases
    case 1
    then have "86400 * q + 86400 \<le> D * 86400" by simp
    with r show ?thesis unfolding T by linarith
  next
    case 2
    with a show ?thesis unfolding T by auto
  next
    case 3
    then have "D * 86400 + 86400 \<le> 86400 * q" by simp
    with r show ?thesis unfolding T by linarith
  qed
qed

lemma new_york_rule_offsets:
  "new_york_rule t = - 14400000 \<or> new_york_rule t = - 18000000"
  by (simp add: new_york_rule_def Let_def msPerHour_def)

lemma new_york_rule_stable:
  assumes "Day t = Day u" and "7 * msPerHour \<le> TimeWithinDay t"
    and "7 * msPerHour \<le> TimeWithinDay u"
  shows "new_york_rule t = new_york_rule u"
proof -
  have cmp: "(S * msPerDay + 7 * msPerHour \<le> t) = (S \<le> Day t)"
    "(t < E * msPerDay + 6 * msPerHour) = (Day t < E)"
    if "7 * msPerHour \<le> TimeWithinDay t" for S E t
  proof -
    have t: "t = Day t * 86400000 + TimeWithinDay t" "TimeWithinDay t < 86400000"
      "25200000 \<le> TimeWithinDay t"
      using Day_split [of t] TimeWithinDay_range(2) [of t] that
      by (simp_all add: msPerDay_def msPerHour_def)
    show "(S * msPerDay + 7 * msPerHour \<le> t) = (S \<le> Day t)"
      unfolding msPerDay_def msPerHour_def using t by linarith
    show "(t < E * msPerDay + 6 * msPerHour) = (Day t < E)"
      unfolding msPerDay_def msPerHour_def using t by linarith
  qed
  from assms(1) have y: "YearFromTime t = YearFromTime u"
    by (simp add: YearFromTime_def)
  show ?thesis
    unfolding new_york_rule_def Let_def y cmp [OF assms(2)] cmp [OF assms(3)] assms(1)
    by (rule refl)
qed

lemma new_york_offsets:
  "- 18000000 \<le> new_york t" "new_york t \<le> - 14400000" "new_york t mod 1000 = 0"
proof -
  define s where "s = offset_at new_york_transitions (- 17762) (t div 1000)"
  have "s = - 17762 \<or> s = - 18000 \<or> s = - 14400"
    using offset_at_cases [of new_york_transitions "- 17762" "t div 1000"]
      new_york_transitions_offsets
    unfolding s_def by auto
  with new_york_rule_offsets [of t]
  have "- 18000000 \<le> new_york t \<and> new_york t \<le> - 14400000 \<and> new_york t mod 1000 = 0"
    unfolding new_york_def s_def [symmetric] by auto
  then show "- 18000000 \<le> new_york t" "new_york t \<le> - 14400000" "new_york t mod 1000 = 0"
    by simp_all
qed

lemma new_york_stable:
  assumes same: "Day t = Day u"
    and wt: "17 * msPerHour \<le> TimeWithinDay t" "TimeWithinDay t \<le> 22 * msPerHour"
    and wu: "17 * msPerHour \<le> TimeWithinDay u" "TimeWithinDay u \<le> 22 * msPerHour"
  shows "new_york t = new_york u"
proof -
  define D where "D = Day t"
  have window: "D * 86400 + 61200 \<le> v div 1000 \<and> v div 1000 \<le> D * 86400 + 79200"
    and year: "(1167609600000 \<le> v) = (13514 \<le> D)"
    if "Day v = D" and "17 * msPerHour \<le> TimeWithinDay v" and "TimeWithinDay v \<le> 22 * msPerHour"
    for v
  proof -
    define w where "w = TimeWithinDay v"
    have v: "v = D * 86400000 + w"
      using Day_split [of v] that(1) by (simp add: w_def msPerDay_def)
    have w: "61200000 \<le> w" "w \<le> 79200000"
      using that(2,3) by (simp_all add: w_def msPerHour_def)
    have "v = 1000 * (D * 86400 + w div 1000) + w mod 1000"
      unfolding v by simp
    then have "v div 1000 = D * 86400 + w div 1000"
      by (rule int_div_pos_eq) simp_all
    moreover have "61200000 div 1000 \<le> w div 1000" "w div 1000 \<le> 79200000 div 1000"
      using w by (intro zdiv_mono1; simp)+
    ultimately show "D * 86400 + 61200 \<le> v div 1000 \<and> v div 1000 \<le> D * 86400 + 79200"
      by simp
    show "(1167609600000 \<le> v) = (13514 \<le> D)"
    proof (cases "13514 \<le> D")
      case True
      then have "13514 * 86400000 \<le> D * 86400000" by simp
      with w True show ?thesis unfolding v by simp
    next
      case False
      then have "D * 86400000 + 86400000 \<le> 13514 * 86400000" by simp
      with w False show ?thesis unfolding v by simp
    qed
  qed
  note t = this [of t, OF D_def [symmetric] wt]
  note u = window [of u, OF same [symmetric, folded D_def] wu]
    year [of u, OF same [symmetric, folded D_def] wu]
  show ?thesis
  proof (cases "13514 \<le> D")
    case True
    have "new_york_rule t = new_york_rule u"
      using same wt(1) wu(1) by (intro new_york_rule_stable) (simp_all add: msPerHour_def)
    with True show ?thesis
      by (simp add: new_york_def t(2) u(2))
  next
    case False
    have "offset_at new_york_transitions (- 17762) (t div 1000)
        = offset_at new_york_transitions (- 17762) (u div 1000)"
    proof (rule offset_at_stable [of _ "D * 86400 + 61200" "D * 86400 + 79200"])
      fix T off :: int
      assume "(T, off) \<in> set new_york_transitions"
      with new_york_transitions_times
      have "T mod 86400 \<le> 61200 \<or> 79200 < T mod 86400" by fastforce
      then show "T \<le> D * 86400 + 61200 \<or> D * 86400 + 79200 < T"
        by (rule outside_window)
    qed (use t(1) u(1) in simp_all)
    with False show ?thesis
      by (simp add: new_york_def t(2) u(2))
  qed
qed

lemma eastern_like_new_york: "eastern_like new_york"
  unfolding eastern_like_def
proof (intro conjI allI impI)
  fix t u
  assume "Day t = Day u \<and>
        17 * msPerHour \<le> TimeWithinDay t \<and> TimeWithinDay t \<le> 22 * msPerHour \<and>
        17 * msPerHour \<le> TimeWithinDay u \<and> TimeWithinDay u \<le> 22 * msPerHour"
  then show "new_york t = new_york u"
    by (intro new_york_stable) simp_all
qed (use new_york_offsets in \<open>simp_all add: msPerHour_def\<close>)

text \<open>On the last day of the range of \<^verbatim>\<open>Date\<close>, in September 275760, daylight time holds.\<close>

lemma new_york_last_day:
  assumes "8639999913600000 \<le> t" and "t < 8640000000000000"
  shows "new_york t = - 14400000"
proof -
  have "t = 99999999 * 86400000 + (t - 8639999913600000)" by simp
  then have d: "Day t = 99999999"
    using Day_of(1) [of "t - 8639999913600000" 99999999] assms by simp
  have y: "YearFromTime t = 275760"
    unfolding YearFromTime_def d by (rule YearFromDay_unique) (simp_all add: DayFromYear_def)
  have m: "MakeDay 275760 2 8 = 99999811" "MakeDay 275760 10 1 = 100000049"
    by (simp_all add: MakeDay_def DayFromYear_def DaysInYear_def month_start_def)
  have s: "first_sunday_from 99999811 = 99999812" "first_sunday_from 100000049 = 100000050"
    by (simp_all add: first_sunday_from_def)
  have "new_york_rule t = - 14400000"
    using assms by (simp add: new_york_rule_def Let_def y m s msPerDay_def msPerHour_def)
  with assms show ?thesis
    by (simp add: new_york_def)
qed

subsection \<open>The two-pass conversion\<close>

text \<open>
  C1, as stated, fails: not for every input is the returned instant the candidate minus
  the zone's offset at the first approximation.  \<^verbatim>\<open>getOffsetMs\<close> reads the zone's wall
  clock and passes it to \<^verbatim>\<open>Date.UTC\<close>, which takes a year from 0 to 99 for 1900 to 1999.
  For 0:00 of January 1 of the year 100 in \<^verbatim>\<open>America/New_York\<close> the candidate is
  \<open>- 59011459200000\<close>; the zone is 4:56:02 behind UTC there, the wall clock is 19:03:58
  of December 31 of the year 99, and the query returns \<open>59958126238000\<close> ms, the
  distance to 1999, where the zone's offset is \<open>- 17762000\<close> ms.  The result is
  \<open>- 172648004638000\<close>, about 3600 years before the candidate.  For 20:01 of September
  12 of the year 275760 the first query returns the zone's offset, four hours, and the
  first approximation lies one minute past the end of the range of \<^verbatim>\<open>Date\<close>: the second
  query throws a \<^verbatim>\<open>RangeError\<close> and nothing is returned.
\<close>

theorem zonedTimeToUtc_two_pass_counterexample:
  "Date_UTC 100 (1 - 1) 1 0 0 0 0 = Ms (- 59011459200000) \<and>
   new_york (- 59011459200000) = - 17762000 \<and>
   getOffsetMs new_york (Ms (- 59011459200000)) = Inr (Ms 59958126238000) \<and>
   zonedTimeToUtc new_york 100 1 1 0 0 = Inr (Ms (- 172648004638000)) \<and>
   zonedTimeToUtc new_york 100 1 1 0 0 \<noteq>
     Inr (Ms (- 59011459200000 - new_york (- 59011459200000 - new_york (- 59011459200000)))) \<and>
   Date_UTC 275760 (9 - 1) 12 20 1 0 0 = Ms 8639999985660000 \<and>
   getOffsetMs new_york (Ms 8639999985660000) = Inr (Ms (- 14400000)) \<and>
   zonedTimeToUtc new_york 275760 9 12 20 1 = Inl RangeError"
proof -
  have a: "Date_UTC 100 (1 - 1) 1 0 0 0 0 = Ms (- 59011459200000)"
    by code_simp
  have b: "new_york (- 59011459200000) = - 17762000" "new_york (- 59011441438000) = - 17762000"
    by code_simp+
  have c: "getOffsetMs new_york (Ms (- 59011459200000)) = Inr (Ms 59958126238000)"
    by code_simp
  have d: "zonedTimeToUtc new_york 100 1 1 0 0 = Inr (Ms (- 172648004638000))"
    by code_simp
  have e: "Date_UTC 275760 (9 - 1) 12 20 1 0 0 = Ms 8639999985660000"
    by code_simp
  have z: "new_york 8639999985660000 = - 14400000"
    by (rule new_york_last_day) simp_all
  have "getOffsetMs new_york (Ms 8639999985660000) = Inr (Ms (new_york 8639999985660000))"
    by (rule getOffsetMs_exact) (simp_all add: z maxTime_def)
  then have f: "getOffsetMs new_york (Ms 8639999985660000) = Inr (Ms (- 14400000))"
    by (simp add: z)
  have g: "getOffsetMs new_york (Ms 8640000000060000) = Inl RangeError"
    by (simp add: getOffsetMs_def new_Date_def formatToParts_def maxTime_def)
  have h: "zonedTimeToUtc new_york 275760 9 12 20 1 = Inl RangeError"
    using e f g by (simp add: zonedTimeToUtc_def Let_def)
  from a b c d e f h show ?thesis by simp
qed

text \<open>
  C1, amended: \<^verbatim>\<open>zonedTimeToUtc\<close> is the two-pass offset correction for every input whose
  two queries are within the reach of \<^verbatim>\<open>getOffsetMs\<close>.  Let \<open>c\<close> be the candidate
  \<^verbatim>\<open>Date.UTC(y, mo - 1, d, h, mi)\<close>, a valid time value, and \<open>c - zone c\<close> the first
  approximation.  When the offsets of the zone are whole seconds, the first approximation
  is inside the range of \<^verbatim>\<open>Date\<close>, and the wall-clock times of the zone at the candidate
  and at the first approximation lie in the year 100 or later and, read as UTC, inside
  the range of \<^verbatim>\<open>Date\<close>, then the first query returns the zone's offset at the
  candidate, the second the zone's offset at the first approximation, and the result is
  the candidate minus the second offset, \<open>c - zone (c - zone c)\<close>.
\<close>

theorem zonedTimeToUtc_two_pass:
  "(\<forall>t. zone t mod 1000 = 0) \<and>
   Date_UTC y (mo - 1) d h mi 0 0 = Ms c \<and>
   TimeFromYear 100 \<le> c + zone c \<and> c + zone c \<le> maxTime \<and>
   \<bar>c - zone c\<bar> \<le> maxTime \<and>
   TimeFromYear 100 \<le> c - zone c + zone (c - zone c) \<and>
   c - zone c + zone (c - zone c) \<le> maxTime \<longrightarrow>
     getOffsetMs zone (Ms c) = Inr (Ms (zone c)) \<and>
     getOffsetMs zone (Ms (c - zone c)) = Inr (Ms (zone (c - zone c))) \<and>
     zonedTimeToUtc zone y mo d h mi = Inr (Ms (c - zone (c - zone c)))"
  (is "?reach \<longrightarrow> ?exact")
proof
  assume r: ?reach
  have y: "TimeFromYear 100 = - 59011459200000"
    by (simp add: TimeFromYear_def DayFromYear_def msPerDay_def)
  from r have z: "zone t mod 1000 = 0" for t by simp
  from r have init: "Date_UTC y (mo - 1) d h mi 0 0 = Ms c" by simp
  from r have b: "- 59011459200000 \<le> c + zone c" "c + zone c \<le> maxTime"
    "\<bar>c - zone c\<bar> \<le> maxTime" "- 59011459200000 \<le> c - zone c + zone (c - zone c)"
    "c - zone c + zone (c - zone c) \<le> maxTime"
    by (simp_all add: y)
  from zonedTimeToUtc_exact [of zone, OF z init b] show ?exact by simp
qed

theorem zonedTimeToUtc_two_pass_witness:
  "getOffsetMs new_york (Date_UTC 2024 (3 - 1) 9 17 0 0 0) = Inr (Ms (- 18000000)) \<and>
   getOffsetMs new_york (Ms (1710003600000 - (- 18000000))) = Inr (Ms (- 18000000)) \<and>
   zonedTimeToUtc new_york 2024 3 9 17 0 = Inr (Ms 1710021600000) \<and>
   getOffsetMs new_york (Date_UTC 2024 (3 - 1) 10 3 0 0 0) = Inr (Ms (- 18000000)) \<and>
   getOffsetMs new_york (Ms (1710039600000 - (- 18000000))) = Inr (Ms (- 14400000)) \<and>
   zonedTimeToUtc new_york 2024 3 10 3 0 = Inr (Ms 1710054000000)"
proof -
  have z: "\<forall>t. new_york t mod 1000 = 0"
    by (simp add: new_york_offsets(3))
  have v: "new_york 1710003600000 = - 18000000" "new_york 1710021600000 = - 18000000"
    "Date_UTC 2024 (3 - 1) 9 17 0 0 0 = Ms 1710003600000"
    "new_york 1710039600000 = - 18000000" "new_york 1710057600000 = - 14400000"
    "Date_UTC 2024 (3 - 1) 10 3 0 0 0 = Ms 1710039600000"
    by code_simp+
  have y: "TimeFromYear 100 = - 59011459200000"
    by (simp add: TimeFromYear_def DayFromYear_def msPerDay_def)
  show ?thesis
    using zonedTimeToUtc_two_pass [where zone = new_york and y = 2024 and mo = 3 and d = 9
        and h = 17 and mi = 0 and c = 1710003600000]
      zonedTimeToUtc_two_pass [where zone = new_york and y = 2024 and mo = 3 and d = 10
        and h = 3 and mi = 0 and c = 1710039600000] z v
    by (simp add: y maxTime_def)
qed

subsection \<open>The next 17:00 in New York\<close>

text \<open>
  C2, as stated, fails in its example, and not every \<open>now\<close> has a target.  At
  2024-03-09T06:30:00Z (\<open>1709965800000\<close>) it is 01:30 EST in New York, and the next 17:00
  there is 2024-03-09T22:00:00Z (\<open>1710021600000\<close>): 17:00 at UTC-5 is 22:00 UTC.  That
  is what the program computes.  The instant 2024-03-09T21:00:00Z of the claim
  (\<open>1710018000000\<close>) is 16:00 in New York.  Three hours before the end of the range of
  \<^verbatim>\<open>Date\<close> (\<open>8639999989200000\<close>) it is 17:00 in New York on the last full day, the next
  17:00 is beyond the range, and \<^verbatim>\<open>shortcutEndOfDay\<close> throws a \<^verbatim>\<open>RangeError\<close>.
\<close>

theorem end_of_day_target_counterexample:
  "targetMs new_york 1709965800000 = Inr (Ms 1710021600000) \<and>
   targetMs new_york 1709965800000 \<noteq> Inr (Ms 1710018000000) \<and>
   formatToParts new_york (Date (Ms 1710018000000)) =
     Inr \<lparr> part_year = 2024, part_month = 3, part_day = 9, part_hour = 16, part_minute = 0,
           part_second = 0 \<rparr> \<and>
   8639999989200000 = maxTime - 3 * msPerHour \<and>
   targetMs new_york 8639999989200000 = Inl RangeError"
proof -
  have a: "targetMs new_york 1709965800000 = Inr (Ms 1710021600000)"
    by code_simp
  have b: "formatToParts new_york (Date (Ms 1710018000000)) =
     Inr \<lparr> part_year = 2024, part_month = 3, part_day = 9, part_hour = 16, part_minute = 0,
           part_second = 0 \<rparr>"
    by code_simp
  have z: "new_york 8639999974800000 = - 14400000"
    by (rule new_york_last_day) simp_all
  have c: "targetMs new_york 8639999989200000 = Inl RangeError"
    using eastern_like_new_york by (rule targetMs_end_of_range) (simp_all add: z maxTime_def)
  from a b c show ?thesis by (simp add: maxTime_def msPerHour_def)
qed

text \<open>
  C2, amended.  The zone is one whose offset is a whole number of seconds from five to
  four hours behind UTC and does not change after 17:00 UTC and until 22:00 UTC of any
  day, as \<^verbatim>\<open>America/New_York\<close> in the time zone database.  For every clock reading \<open>now\<close>
  of the range of \<^verbatim>\<open>Date\<close> earlier than three hours before its end, \<^verbatim>\<open>shortcutEndOfDay\<close>
  resolves an instant \<open>target\<close> strictly after \<open>now\<close> whose wall clock in the zone is
  17:00:00.  When the zone's calendar date of \<open>now\<close> is in the year 100 or later, the
  conversion of 17:00 of that date gives an instant \<open>today\<close> whose local time is 17:00
  of that date, and the target is \<open>today\<close> if it is after \<open>now\<close>, else the instant
  whose local time is 17:00 of the next calendar day.

  For \<open>now\<close> = 2024-03-09T06:30:00Z the result is 2024-03-09T22:00:00Z (17:00 EST,
  UTC-5); one millisecond before the clocks spring forward, at 2024-03-10T06:59:59.999Z,
  it is 2024-03-10T21:00:00Z (17:00 EDT); in the repeated hour of 2024-11-03, at
  05:00:00Z, it is 2024-11-03T22:00:00Z (17:00 EST); under the rule before 2007, at
  2006-03-20T12:00:00Z, it is 2006-03-20T22:00:00Z (17:00 EST); one millisecond before
  the epoch it is 1970-01-01T22:00:00Z; one millisecond before New York left local mean
  time, at 1883-11-18T16:59:59.999Z, it is 1883-11-18T22:00:00Z; and at 0:00 UTC of
  November 28 of the year 2 BC (\<open>- 62170156800000\<close>), a date that the formatter prints
  with the year 2 and \<^verbatim>\<open>Date.UTC\<close> reads as 1902, it is 1902-11-27T22:00:00Z.
\<close>

theorem end_of_day_target:
  "(eastern_like zone \<and> - maxTime \<le> now \<and> now < maxTime - 3 * msPerHour \<longrightarrow>
      (\<exists>target. targetMs zone now = Inr (Ms target) \<and> now < target \<and>
         (\<exists>p. formatToParts zone (Date (Ms target)) = Inr p \<and>
              part_hour p = 17 \<and> part_minute p = 0 \<and> part_second p = 0))) \<and>
   (eastern_like zone \<and> TimeFromYear 100 \<le> now + zone now \<and>
    now < maxTime - 3 * msPerHour \<longrightarrow>
      (\<exists>today target.
           zonedTimeToUtc zone (YearFromTime (now + zone now)) (MonthFromTime (now + zone now) + 1)
             (DateFromTime (now + zone now)) 17 0 = Inr (Ms today) \<and>
           today + zone today = Day (now + zone now) * msPerDay + 17 * msPerHour \<and>
           targetMs zone now = Inr (Ms target) \<and>
           now < target \<and>
           (now < today \<longrightarrow> target = today) \<and>
           (today \<le> now \<longrightarrow>
              target + zone target = (Day (now + zone now) + 1) * msPerDay + 17 * msPerHour) \<and>
           (\<exists>p. formatToParts zone (Date (Ms target)) = Inr p \<and>
                part_hour p = 17 \<and> part_minute p = 0 \<and> part_second p = 0))) \<and>
   eastern_like new_york \<and>
   targetMs new_york 1709965800000 = Inr (Ms 1710021600000) \<and>
   targetMs new_york 1710053999999 = Inr (Ms 1710104400000) \<and>
   targetMs new_york 1730610000000 = Inr (Ms 1730671200000) \<and>
   targetMs new_york 1142856000000 = Inr (Ms 1142892000000) \<and>
   targetMs new_york (- 1) = Inr (Ms 79200000) \<and>
   targetMs new_york (- 2717650800001) = Inr (Ms (- 2717632800000)) \<and>
   targetMs new_york (- 62170156800000) = Inr (Ms (- 2117325600000))"
  (is "(?range \<longrightarrow> ?after) \<and> (?late \<longrightarrow> ?next17) \<and> ?ny \<and> ?scenario \<and> ?spring \<and> ?fall
       \<and> ?y2006 \<and> ?epoch \<and> ?y1883 \<and> ?bc")
proof (intro conjI impI)
  assume r: ?range
  show ?after
  proof (cases "- 59011459200000 \<le> now + zone now")
    case True
    with r targetMs_next_17 [of zone now] show ?thesis
      by (auto simp: formatToParts_valid maxTime_def msPerHour_def)
  next
    case False
    with r targetMs_early_years [of zone now] show ?thesis
      by (auto simp: formatToParts_valid)
  qed
next
  assume ?late
  then show ?next17
    using targetMs_next_17 [of zone now]
    by (simp add: formatToParts_valid TimeFromYear_def DayFromYear_def msPerDay_def
        maxTime_def msPerHour_def)
next
  show ?ny by (rule eastern_like_new_york)
next
  show ?scenario by code_simp
next
  show ?spring by code_simp
next
  show ?fall by code_simp
next
  show ?y2006 by code_simp
next
  show ?epoch by code_simp
next
  show ?y1883 by code_simp
next
  show ?bc by code_simp
qed

theorem end_of_day_target_witness:
  "eastern_like new_york \<and> - maxTime \<le> 1709965800000 \<and>
   TimeFromYear 100 \<le> 1709965800000 + new_york 1709965800000 \<and>
   1709965800000 < maxTime - 3 * msPerHour \<and>
   (\<exists>today target.
      zonedTimeToUtc new_york 2024 3 9 17 0 = Inr (Ms today) \<and>
      targetMs new_york 1709965800000 = Inr (Ms target) \<and>
      1709965800000 < target \<and> target = today \<and>
      (\<exists>p. formatToParts new_york (Date (Ms target)) = Inr p \<and>
           part_hour p = 17 \<and> part_minute p = 0 \<and> part_second p = 0)) \<and>
   - maxTime \<le> - 62170156800000 \<and>
   (\<exists>target. targetMs new_york (- 62170156800000) = Inr (Ms target) \<and>
      - 62170156800000 < target \<and>
      (\<exists>p. formatToParts new_york (Date (Ms target)) = Inr p \<and>
           part_hour p = 17 \<and> part_minute p = 0 \<and> part_second p = 0))"
proof -
  have v: "new_york 1709965800000 = - 18000000"
    "YearFromTime 1709947800000 = 2024" "MonthFromTime 1709947800000 = 2"
    "DateFromTime 1709947800000 = 9"
    "zonedTimeToUtc new_york 2024 3 9 17 0 = Inr (Ms 1710021600000)"
    by code_simp+
  have h: "eastern_like new_york \<and> - maxTime \<le> 1709965800000 \<and>
      TimeFromYear 100 \<le> 1709965800000 + new_york 1709965800000 \<and>
      1709965800000 < maxTime - 3 * msPerHour \<and> - maxTime \<le> - 62170156800000"
    by (simp add: eastern_like_new_york maxTime_def msPerHour_def v TimeFromYear_def
        DayFromYear_def msPerDay_def)
  with end_of_day_target [of new_york 1709965800000]
    end_of_day_target [of new_york "- 62170156800000"]
  show ?thesis
    by (auto simp: v maxTime_def msPerHour_def)
qed

subsection \<open>What the operations do to the state\<close>

lemma start_fields:
  "running (start m t0 t1 s) \<and> startTime (start m t0 t1 s) = Some (Date (Ms t0)) \<and>
   endTime (start m t0 t1 s) = Some (new_Date (Ms (t0 + m * 60000))) \<and>
   remainingMs (start m t0 t1 s) = tv_sub (getTime (new_Date (Ms (t0 + m * 60000)))) (Ms t1) \<and>
   tickHandle (start m t0 t1 s) = Some (nextHandle s) \<and>
   intervals (start m t0 t1 s) =
     intervals (clearTimer s) @ [(nextHandle s, Update (new_Date (Ms (t0 + m * 60000))))] \<and>
   nextHandle (start m t0 t1 s) = Suc (nextHandle s) \<and>
   pendingMinutes (start m t0 t1 s) = pendingMinutes s \<and>
   pendingExactEnd (start m t0 t1 s) = pendingExactEnd s"
  by (simp add: start_def update_def setInterval_def clearTimer_def clearInterval_def Let_def
      split: option.splits)

lemma startUntil_fields:
  "running (startUntil e t0 t1 s) \<and> startTime (startUntil e t0 t1 s) = Some (Date (Ms t0)) \<and>
   endTime (startUntil e t0 t1 s) = Some e \<and>
   remainingMs (startUntil e t0 t1 s) = tv_sub (getTime e) (Ms t1) \<and>
   tickHandle (startUntil e t0 t1 s) = Some (nextHandle s) \<and>
   intervals (startUntil e t0 t1 s) = intervals (clearTimer s) @ [(nextHandle s, Update e)] \<and>
   nextHandle (startUntil e t0 t1 s) = Suc (nextHandle s) \<and>
   pendingMinutes (startUntil e t0 t1 s) = pendingMinutes s \<and>
   pendingExactEnd (startUntil e t0 t1 s) = pendingExactEnd s"
  by (simp add: startUntil_def update_def setInterval_def clearTimer_def clearInterval_def Let_def
      split: option.splits)

lemma start_auto_times:
  "startTime (start_auto m t0 t1 s) = Some (Date (Ms t0)) \<and>
   endTime (start_auto m t0 t1 s) = Some (new_Date (Ms (t0 + m * 60000)))"
  by (simp add: start_auto_def update_auto_def setInterval_def clearTimer_def clearInterval_def
      Let_def split: option.splits)

lemma start_auto_timers:
  "tickHandle (start_auto m t0 t1 s) = Some (nextHandle s) \<and>
   intervals (start_auto m t0 t1 s) =
     intervals (clearTimer s) @ [(nextHandle s, Update_auto (new_Date (Ms (t0 + m * 60000))))]"
  by (simp add: start_auto_def update_auto_def setInterval_def clearTimer_def clearInterval_def
      Let_def split: option.splits)

lemma setPrecise_timers [simp]:
  "tickHandle (setPrecise z d now s) = tickHandle s"
  "intervals (setPrecise z d now s) = intervals s"
  by (simp_all add: setPrecise_def Let_def)

lemma new_Date_in_range: "\<bar>t\<bar> \<le> maxTime \<Longrightarrow> new_Date (Ms t) = Date (Ms t)"
  by (simp add: new_Date_def)

lemmas Number_js_defs = Number_js_def trim_def StrWhiteSpaceChar_def StrUnsignedDecimalLiteral_def
  NonDecimalIntegerLiteral_def is_digit_def digit_value_def digits_value_def

lemma Number_js_examples:
  "Number_js ''0'' = Fin 0" "Number_js ''-5'' = Fin (- 5)" "Number_js ''abc'' = NaN"
  "Number_js ''2.5'' = Fin (5 / 2)" "Number_js ''0.5'' = Fin (1 / 2)"
  by (simp_all add: Number_js_defs)

subsection \<open>Relative deadlines\<close>

text \<open>
  C3, as stated, fails: for every positive integer \<open>m\<close> the expiry would lie exactly
  \<open>m * 60000\<close> ms after \<open>now\<close>.  A \<^verbatim>\<open>Date\<close> holds no instant beyond \<open>8.64e15\<close> ms, so for
  a large \<open>m\<close> \<^verbatim>\<open>new Date(now + m * 60_000)\<close> is an Invalid Date.  With
  \<^verbatim>\<open>1000000000000\<close> in the custom field, the parsed selection is that number, and the run
  started from it (at once in \<^verbatim>\<open>App.vue\<close>, after confirming in \<^verbatim>\<open>part_000\<close>) has a valid
  start time and no expiry instant; neither have the previews.
\<close>

theorem relative_expiry_counterexample:
  "parsedCustomMinutes Number_js (initial\<lparr>customMinutes := ''1000000000000''\<rparr>)
     = Some 1000000000000 \<and>
   startTime (startCustom_auto Number_js 1700000000000 1700000000000
      (initial\<lparr>customMinutes := ''1000000000000''\<rparr>)) = Some (Date (Ms 1700000000000)) \<and>
   endTime (startCustom_auto Number_js 1700000000000 1700000000000
      (initial\<lparr>customMinutes := ''1000000000000''\<rparr>)) = Some (Date TNaN) \<and>
   startTime (confirmStart 1700000000000 1700000000000
      (startCustom Number_js (initial\<lparr>customMinutes := ''1000000000000''\<rparr>)))
     = Some (Date (Ms 1700000000000)) \<and>
   endTime (confirmStart 1700000000000 1700000000000
      (startCustom Number_js (initial\<lparr>customMinutes := ''1000000000000''\<rparr>)))
     = Some (Date TNaN) \<and>
   endTime (confirmStart_simple 1700000000000 1700000000000
      (startCustom_simple Number_js (initial\<lparr>customMinutes := ''1000000000000''\<rparr>)))
     = Some (Date TNaN) \<and>
   pendingExpiresAt 1700000000000
      (startCustom Number_js (initial\<lparr>customMinutes := ''1000000000000''\<rparr>))
     = Some (Date TNaN) \<and>
   customExpiresAt Number_js 1700000000000 (initial\<lparr>customMinutes := ''1000000000000''\<rparr>)
     = Some (Date TNaN)"
proof -
  have n: "Number_js ''1000000000000'' = Fin 1000000000000"
    by (simp add: Number_js_defs)
  have p: "parsedCustomMinutes Number_js (initial\<lparr>customMinutes := ''1000000000000''\<rparr>)
     = Some 1000000000000"
    by (simp add: parsedCustomMinutes_def n)
  show ?thesis
    by (simp add: p startCustom_auto_def startCustom_def startCustom_simple_def confirmStart_def
        confirmStart_simple_def start_fields start_auto_times pendingExpiresAt_def
        customExpiresAt_def new_Date_def maxTime_def)
qed

text \<open>
  C3, amended: for every positive integer \<open>m\<close> and clock reading \<open>now\<close>, \<^verbatim>\<open>start(m)\<close> (in all
  versions) sets the start time to \<open>now\<close>.  If the sum \<open>now + m * 60000\<close> is inside the
  range of \<^verbatim>\<open>Date\<close>, the end time is exactly \<open>now + m * 60000\<close> ms, and the pending, custom
  and hover previews evaluated at \<open>now\<close> show that same instant.  If the sum is beyond the
  range, the end time and the previews are an Invalid Date: there is no expiry instant.
\<close>

theorem relative_expiry:
  "(0 < m \<longrightarrow>
      startTime (start m now t s) = Some (Date (Ms now)) \<and>
      startTime (start_auto m now t s) = Some (Date (Ms now))) \<and>
   (0 < m \<and> \<bar>now + m * 60000\<bar> \<le> maxTime \<longrightarrow>
      endTime (start m now t s) = Some (Date (Ms (now + m * 60000))) \<and>
      endTime (start_auto m now t s) = Some (Date (Ms (now + m * 60000))) \<and>
      (pendingMinutes s = Some m \<and> pendingExactEnd s = None \<longrightarrow>
         pendingExpiresAt now s = Some (Date (Ms (now + m * 60000)))) \<and>
      (pendingMinutes s = Some m \<longrightarrow>
         pendingExpiresAt_simple now s = Some (Date (Ms (now + m * 60000)))) \<and>
      (parsedCustomMinutes Number s = Some m \<longrightarrow>
         customExpiresAt Number now s = Some (Date (Ms (now + m * 60000)))) \<and>
      (hovered s = Some m \<longrightarrow>
         hoveredExpiresAt now s = Some (Date (Ms (now + m * 60000))))) \<and>
   (0 < m \<and> maxTime < \<bar>now + m * 60000\<bar> \<longrightarrow>
      endTime (start m now t s) = Some (Date TNaN) \<and>
      endTime (start_auto m now t s) = Some (Date TNaN) \<and>
      (pendingMinutes s = Some m \<and> pendingExactEnd s = None \<longrightarrow>
         pendingExpiresAt now s = Some (Date TNaN)) \<and>
      (pendingMinutes s = Some m \<longrightarrow>
         pendingExpiresAt_simple now s = Some (Date TNaN)) \<and>
      (parsedCustomMinutes Number s = Some m \<longrightarrow>
         customExpiresAt Number now s = Some (Date TNaN)) \<and>
      (hovered s = Some m \<longrightarrow>
         hoveredExpiresAt now s = Some (Date TNaN)))"
  (is "?started \<and> (?inside \<longrightarrow> ?exact) \<and> (?beyond \<longrightarrow> ?invalid)")
proof -
  have started: ?started
    by (simp add: start_fields start_auto_times)
  have exact: "?inside \<longrightarrow> ?exact"
    by (simp add: start_fields start_auto_times new_Date_in_range pendingExpiresAt_def
        pendingExpiresAt_simple_def customExpiresAt_def hoveredExpiresAt_def)
  have invalid: "?beyond \<longrightarrow> ?invalid"
  proof
    assume b: ?beyond
    then have "new_Date (Ms (now + m * 60000)) = Date TNaN"
      by (simp add: new_Date_def)
    with b show ?invalid
      by (simp add: start_fields start_auto_times pendingExpiresAt_def
          pendingExpiresAt_simple_def customExpiresAt_def hoveredExpiresAt_def)
  qed
  show ?thesis
    by (rule conjI [OF started conjI [OF exact invalid]])
qed

theorem relative_expiry_witness:
  "endTime (start 10 1700000000000 1700000000000
      (initial\<lparr>pendingMinutes := Some 10, customMinutes := ''10'', hovered := Some 10\<rparr>))
     = Some (Date (Ms 1700000600000)) \<and>
   endTime (start_auto 10 1700000000000 1700000000000
      (initial\<lparr>pendingMinutes := Some 10, customMinutes := ''10'', hovered := Some 10\<rparr>))
     = Some (Date (Ms 1700000600000)) \<and>
   pendingExpiresAt 1700000000000
      (initial\<lparr>pendingMinutes := Some 10, customMinutes := ''10'', hovered := Some 10\<rparr>)
     = Some (Date (Ms 1700000600000)) \<and>
   pendingExpiresAt_simple 1700000000000
      (initial\<lparr>pendingMinutes := Some 10, customMinutes := ''10'', hovered := Some 10\<rparr>)
     = Some (Date (Ms 1700000600000)) \<and>
   customExpiresAt Number_js 1700000000000
      (initial\<lparr>pendingMinutes := Some 10, customMinutes := ''10'', hovered := Some 10\<rparr>)
     = Some (Date (Ms 1700000600000)) \<and>
   hoveredExpiresAt 1700000000000
      (initial\<lparr>pendingMinutes := Some 10, customMinutes := ''10'', hovered := Some 10\<rparr>)
     = Some (Date (Ms 1700000600000)) \<and>
   maxTime < \<bar>1700000000000 + 144000000000 * 60000\<bar> \<and>
   startTime (start 144000000000 1700000000000 1700000000000
      (initial\<lparr>pendingMinutes := Some 144000000000, customMinutes := ''144000000000''\<rparr>))
     = Some (Date (Ms 1700000000000)) \<and>
   endTime (start 144000000000 1700000000000 1700000000000
      (initial\<lparr>pendingMinutes := Some 144000000000, customMinutes := ''144000000000''\<rparr>))
     = Some (Date TNaN) \<and>
   pendingExpiresAt 1700000000000
      (initial\<lparr>pendingMinutes := Some 144000000000, customMinutes := ''144000000000''\<rparr>)
     = Some (Date TNaN) \<and>
   customExpiresAt Number_js 1700000000000
      (initial\<lparr>pendingMinutes := Some 144000000000, customMinutes := ''144000000000''\<rparr>)
     = Some (Date TNaN)"
proof -
  have n: "Number_js ''10'' = Fin 10" "Number_js ''144000000000'' = Fin 144000000000"
    by (simp_all add: Number_js_defs)
  show ?thesis
    using relative_expiry [where m = 10 and now = 1700000000000
        and t = 1700000000000 and Number = Number_js
        and s = "initial\<lparr>pendingMinutes := Some 10, customMinutes := ''10'', hovered := Some 10\<rparr>"]
      relative_expiry [where m = 144000000000 and now = 1700000000000
        and t = 1700000000000 and Number = Number_js
        and s = "initial\<lparr>pendingMinutes := Some 144000000000,
          customMinutes := ''144000000000''\<rparr>"]
    by (simp add: maxTime_def initial_def parsedCustomMinutes_def n)
qed

subsection \<open>Ticks\<close>

lemma ticker_shape_clearTimer:
  assumes "ticker_shape mk s"
  shows "intervals (clearTimer s) = []" and "tickHandle (clearTimer s) = None"
  using assms
  by (auto simp: ticker_shape_def clearTimer_def clearInterval_def split: option.splits)

lemma ticker_shape_clearTimer': "ticker_shape mk s \<Longrightarrow> ticker_shape mk (clearTimer s)"
  by (simp add: ticker_shape_def ticker_shape_clearTimer)

lemma ticker_shape_update [simp]:
  "ticker_shape mk (s\<lparr>running := r\<rparr>) = ticker_shape mk s"
  "ticker_shape mk (s\<lparr>remainingMs := m\<rparr>) = ticker_shape mk s"
  "ticker_shape mk (s\<lparr>startTime := a\<rparr>) = ticker_shape mk s"
  "ticker_shape mk (s\<lparr>pendingMinutes := p\<rparr>) = ticker_shape mk s"
  "ticker_shape mk (s\<lparr>pendingExactEnd := q\<rparr>) = ticker_shape mk s"
  "ticker_shape mk (s\<lparr>customMinutes := c\<rparr>) = ticker_shape mk s"
  "ticker_shape mk (s\<lparr>preciseEndLocal := c\<rparr>) = ticker_shape mk s"
  "ticker_shape mk (s\<lparr>hovered := p\<rparr>) = ticker_shape mk s"
  by (simp_all add: ticker_shape_def cong: option.case_cong)

lemma ticker_shape_cancel: "ticker_shape mk s \<Longrightarrow> ticker_shape mk (cancel s)"
  by (simp add: cancel_def ticker_shape_def ticker_shape_clearTimer)

lemma ticker_shape_start: "ticker_shape mk s \<Longrightarrow> ticker_shape Update (start m t0 t1 s)"
  by (simp add: ticker_shape_def start_fields ticker_shape_clearTimer)

lemma ticker_shape_startUntil:
  "ticker_shape mk s \<Longrightarrow> ticker_shape Update (startUntil e t0 t1 s)"
  by (simp add: ticker_shape_def startUntil_fields ticker_shape_clearTimer)

lemma ticker_shape_start_auto:
  "ticker_shape mk s \<Longrightarrow> ticker_shape Update_auto (start_auto m t0 t1 s)"
  by (simp add: ticker_shape_def start_auto_timers start_auto_times ticker_shape_clearTimer)

lemma ticker_shape_tick: "ticker_shape mk s \<Longrightarrow> ticker_shape mk (tick h now s)"
proof (cases "map_of (intervals s) h")
  case None
  then show "ticker_shape mk s \<Longrightarrow> ?thesis" by (simp add: tick_def)
next
  case (Some cb)
  then show "ticker_shape mk s \<Longrightarrow> ?thesis"
    by (cases cb)
      (simp_all add: tick_def update_def update_auto_def Let_def ticker_shape_clearTimer')
qed

lemma ticker_shape_setPrecise [simp]:
  "ticker_shape mk (setPrecise z d now s) = ticker_shape mk s"
  by (simp add: setPrecise_def Let_def)

lemma ticker_shape_step: "ticker_shape Update s \<Longrightarrow> ticker_shape Update (step rt s e)"
proof (cases e)
  case (ConfirmStart t0 t1)
  then show "ticker_shape Update s \<Longrightarrow> ?thesis"
    by (simp add: confirmStart_def ticker_shape_start ticker_shape_startUntil
        split: option.splits)
next
  case (ShortcutEndOfDay t0 t1)
  then show "ticker_shape Update s \<Longrightarrow> ?thesis"
    by (simp add: shortcutEndOfDay_def split: sum.splits)
qed (simp_all add: choosePreset_def startCustom_def cancelPending_def previewPreciseEnd_def
    shortcutHalfPast_def shortcutEndOfHour_def shortcutNextHour_def shortcutNoon_def
    ticker_shape_cancel ticker_shape_tick ticker_shape_clearTimer' Let_def)

lemma ticker_shape_step_simple:
  "ticker_shape Update s \<Longrightarrow> ticker_shape Update (step_simple N s e)"
  by (cases e)
    (simp_all add: choosePreset_simple_def startCustom_simple_def cancelPending_simple_def
      confirmStart_simple_def ticker_shape_start ticker_shape_cancel ticker_shape_tick
      ticker_shape_clearTimer' split: option.splits)

lemma ticker_shape_step_auto:
  "ticker_shape Update_auto s \<Longrightarrow> ticker_shape Update_auto (step_auto N s e)"
  by (cases e)
    (simp_all add: startCustom_auto_def ticker_shape_start_auto ticker_shape_cancel
      ticker_shape_tick ticker_shape_clearTimer')

lemma ticker_shape_runs:
  "ticker_shape Update (foldl (step rt) initial evs)"
  "ticker_shape Update (foldl (step_simple N) initial es)"
  "ticker_shape Update_auto (foldl (step_auto N) initial ea)"
proof -
  have i: "ticker_shape mk initial" for mk
    by (simp add: ticker_shape_def initial_def)
  have "ticker_shape Update s \<Longrightarrow> ticker_shape Update (foldl (step rt) s evs)" for s
    by (induction evs arbitrary: s) (simp_all add: ticker_shape_step)
  with i show "ticker_shape Update (foldl (step rt) initial evs)" by blast
  have "ticker_shape Update s \<Longrightarrow> ticker_shape Update (foldl (step_simple N) s es)" for s
    by (induction es arbitrary: s) (simp_all add: ticker_shape_step_simple)
  with i show "ticker_shape Update (foldl (step_simple N) initial es)" by blast
  have "ticker_shape Update_auto s \<Longrightarrow> ticker_shape Update_auto (foldl (step_auto N) s ea)"
    for s
    by (induction ea arbitrary: s) (simp_all add: ticker_shape_step_auto)
  with i show "ticker_shape Update_auto (foldl (step_auto N) initial ea)" by blast
qed

lemma tick_of_shape:
  assumes "ticker_shape Update s" and "tickHandle s = Some h"
  shows "\<exists>e. endTime s = Some e \<and> intervals s = [(h, Update e)] \<and>
           tick h now s = s\<lparr>remainingMs := tv_sub (getTime e) (Ms now)\<rparr>"
  using assms by (auto simp: ticker_shape_def tick_def update_def split: option.splits)

lemma tick_of_shape_auto:
  assumes "ticker_shape Update_auto s" and "tickHandle s = Some h"
  shows "\<exists>e. endTime s = Some e \<and> intervals s = [(h, Update_auto e)] \<and>
           tick h now s =
             (if tv_le (tv_sub (getTime e) (Ms now)) (Ms 0)
              then s\<lparr>remainingMs := Math_max (Ms 0) (tv_sub (getTime e) (Ms now)),
                     intervals := [], tickHandle := None, running := False\<rparr>
              else s\<lparr>remainingMs := Math_max (Ms 0) (tv_sub (getTime e) (Ms now))\<rparr>)"
  using assms
  by (auto simp: ticker_shape_def tick_def update_auto_def clearTimer_def clearInterval_def
      Let_def split: option.splits)

text \<open>
  C4: a tick of a running timer whose expiry is the instant \<open>e\<close> recomputes the remaining
  time from the clock.  In \<^verbatim>\<open>part_000\<close> (the versions with the overdue banner) it is
  \<open>e - now\<close>, unclamped and possibly negative, and the timer keeps running.  In
  \<^verbatim>\<open>App.vue\<close> it is \<open>max 0 (e - now)\<close>, and a tick that sees \<open>e - now \<le> 0\<close> stops: not
  running, no handle, no repeating timer left.  The states this speaks of are the ones
  that occur: after every finite sequence of events, a tick of the timer whose handle the
  component holds changes \<^verbatim>\<open>remainingMs\<close> to \<^verbatim>\<open>endTime - now\<close> and nothing else in
  \<^verbatim>\<open>part_000\<close>, and to \<^verbatim>\<open>Math.max(0, endTime - now)\<close> in \<^verbatim>\<open>App.vue\<close>, which also stops
  when the difference is at most \<open>0\<close>.  Scenario: a 10-minute selection confirmed
  at \<open>T\<close> expires at \<open>T + 600000\<close>; the tick at \<open>T + 600001\<close> leaves \<open>- 1\<close> and a running
  timer in \<^verbatim>\<open>part_000\<close>, and \<open>0\<close> and an idle component in \<^verbatim>\<open>App.vue\<close>.
\<close>

theorem tick_recomputes_remaining:
  "(running s \<and> tickHandle s = Some h \<and> endTime s = Some (Date (Ms e)) \<and>
    intervals s = [(h, Update (Date (Ms e)))] \<longrightarrow>
      remainingMs (tick h now s) = Ms (e - now) \<and> running (tick h now s) \<and>
      tickHandle (tick h now s) = Some h \<and> intervals (tick h now s) = intervals s) \<and>
   (running s \<and> tickHandle s = Some h \<and> endTime s = Some (Date (Ms e)) \<and>
    intervals s = [(h, Update_auto (Date (Ms e)))] \<longrightarrow>
      remainingMs (tick h now s) = Ms (max 0 (e - now)) \<and>
      (e - now \<le> 0 \<longrightarrow>
         \<not> running (tick h now s) \<and> tickHandle (tick h now s) = None \<and>
         intervals (tick h now s) = []) \<and>
      (0 < e - now \<longrightarrow>
         running (tick h now s) \<and> tickHandle (tick h now s) = Some h \<and>
         intervals (tick h now s) = intervals s)) \<and>
   (tickHandle (foldl (step rt) initial evs) = Some h \<longrightarrow>
      (\<exists>end. endTime (foldl (step rt) initial evs) = Some end \<and>
         intervals (foldl (step rt) initial evs) = [(h, Update end)] \<and>
         tick h now (foldl (step rt) initial evs) =
           (foldl (step rt) initial evs)\<lparr>remainingMs := tv_sub (getTime end) (Ms now)\<rparr>)) \<and>
   (tickHandle (foldl (step_simple N) initial es) = Some h \<longrightarrow>
      (\<exists>end. endTime (foldl (step_simple N) initial es) = Some end \<and>
         intervals (foldl (step_simple N) initial es) = [(h, Update end)] \<and>
         tick h now (foldl (step_simple N) initial es) =
           (foldl (step_simple N) initial es)\<lparr>remainingMs := tv_sub (getTime end) (Ms now)\<rparr>)) \<and>
   (tickHandle (foldl (step_auto N) initial ea) = Some h \<longrightarrow>
      (\<exists>end. endTime (foldl (step_auto N) initial ea) = Some end \<and>
         intervals (foldl (step_auto N) initial ea) = [(h, Update_auto end)] \<and>
         tick h now (foldl (step_auto N) initial ea) =
           (if tv_le (tv_sub (getTime end) (Ms now)) (Ms 0)
            then (foldl (step_auto N) initial ea)
                   \<lparr>remainingMs := Math_max (Ms 0) (tv_sub (getTime end) (Ms now)),
                    intervals := [], tickHandle := None, running := False\<rparr>
            else (foldl (step_auto N) initial ea)
                   \<lparr>remainingMs := Math_max (Ms 0) (tv_sub (getTime end) (Ms now))\<rparr>))) \<and>
   (\<bar>T + 600000\<bar> \<le> maxTime \<longrightarrow>
      running (confirmStart T T (choosePreset 10 initial)) \<and>
      endTime (confirmStart T T (choosePreset 10 initial)) = Some (Date (Ms (T + 600000))) \<and>
      remainingMs (tick 1 (T + 600001) (confirmStart T T (choosePreset 10 initial))) = Ms (- 1) \<and>
      running (tick 1 (T + 600001) (confirmStart T T (choosePreset 10 initial))) \<and>
      running (confirmStart_simple T T (choosePreset_simple 10 initial)) \<and>
      endTime (confirmStart_simple T T (choosePreset_simple 10 initial))
        = Some (Date (Ms (T + 600000))) \<and>
      remainingMs (tick 1 (T + 600001) (confirmStart_simple T T (choosePreset_simple 10 initial)))
        = Ms (- 1) \<and>
      running (tick 1 (T + 600001) (confirmStart_simple T T (choosePreset_simple 10 initial))) \<and>
      running (start_auto 10 T T initial) \<and>
      endTime (start_auto 10 T T initial) = Some (Date (Ms (T + 600000))) \<and>
      remainingMs (tick 1 (T + 600001) (start_auto 10 T T initial)) = Ms 0 \<and>
      \<not> running (tick 1 (T + 600001) (start_auto 10 T T initial)) \<and>
      tickHandle (tick 1 (T + 600001) (start_auto 10 T T initial)) = None \<and>
      intervals (tick 1 (T + 600001) (start_auto 10 T T initial)) = [])"
  (is "?plain \<and> ?auto \<and> ?run \<and> ?run_simple \<and> ?run_auto \<and> (?range \<longrightarrow> ?scenario)")
proof (intro conjI)
  show ?plain
    by (simp add: tick_def update_def)
next
  show ?auto
    by (simp add: tick_def update_auto_def clearTimer_def clearInterval_def Let_def)
next
  show ?run
    using tick_of_shape [OF ticker_shape_runs(1)] by blast
next
  show ?run_simple
    using tick_of_shape [OF ticker_shape_runs(2)] by blast
next
  show ?run_auto
    using tick_of_shape_auto [OF ticker_shape_runs(3)] by blast
next
  show "?range \<longrightarrow> ?scenario"
  proof
    assume range: "\<bar>T + 600000\<bar> \<le> maxTime"
    have a: "start_auto 10 T T initial = initial\<lparr> startTime := Some (Date (Ms T)),
        endTime := Some (Date (Ms (T + 600000))), running := True, remainingMs := Ms 600000,
        intervals := [(1, Update_auto (Date (Ms (T + 600000))))], nextHandle := 2,
        tickHandle := Some 1 \<rparr>"
      using range
      by (simp add: start_auto_def update_auto_def setInterval_def clearTimer_def new_Date_def
          Let_def initial_def)
    have b: "confirmStart T T (choosePreset 10 initial) = initial\<lparr> startTime := Some (Date (Ms T)),
        endTime := Some (Date (Ms (T + 600000))), running := True, remainingMs := Ms 600000,
        intervals := [(1, Update (Date (Ms (T + 600000))))], nextHandle := 2,
        tickHandle := Some 1 \<rparr>"
      using range
      by (simp add: confirmStart_def choosePreset_def start_def update_def setInterval_def
          clearTimer_def new_Date_def Let_def initial_def)
    have c: "confirmStart_simple T T (choosePreset_simple 10 initial) =
        initial\<lparr> startTime := Some (Date (Ms T)),
        endTime := Some (Date (Ms (T + 600000))), running := True, remainingMs := Ms 600000,
        intervals := [(1, Update (Date (Ms (T + 600000))))], nextHandle := 2,
        tickHandle := Some 1 \<rparr>"
      using range
      by (simp add: confirmStart_simple_def choosePreset_simple_def start_def update_def
          setInterval_def clearTimer_def new_Date_def Let_def initial_def)
    show ?scenario
      unfolding a b c
      by (simp add: tick_def update_def update_auto_def clearTimer_def clearInterval_def Let_def)
  qed
qed

theorem tick_recomputes_remaining_witness:
  "remainingMs (tick 1 601001 (confirmStart 1000 1000 (choosePreset 10 initial))) = Ms (- 1) \<and>
   running (tick 1 601001 (confirmStart 1000 1000 (choosePreset 10 initial))) \<and>
   intervals (tick 1 601001 (confirmStart 1000 1000 (choosePreset 10 initial)))
     = [(1, Update (Date (Ms 601000)))] \<and>
   remainingMs (tick 1 601001 (start_auto 10 1000 1000 initial)) = Ms 0 \<and>
   \<not> running (tick 1 601001 (start_auto 10 1000 1000 initial)) \<and>
   tickHandle (tick 1 601001 (start_auto 10 1000 1000 initial)) = None \<and>
   intervals (tick 1 601001 (start_auto 10 1000 1000 initial)) = [] \<and>
   remainingMs (tick 1 600999 (start_auto 10 1000 1000 initial)) = Ms 1 \<and>
   running (tick 1 600999 (start_auto 10 1000 1000 initial)) \<and>
   tickHandle (foldl (step_simple Number_js) initial
     [ChoosePreset_simple 10, ConfirmStart_simple 1000 1000]) = Some 1 \<and>
   tick 1 601001 (foldl (step_simple Number_js) initial
     [ChoosePreset_simple 10, ConfirmStart_simple 1000 1000]) =
     (foldl (step_simple Number_js) initial
       [ChoosePreset_simple 10, ConfirmStart_simple 1000 1000])\<lparr>remainingMs := Ms (- 1)\<rparr> \<and>
   tickHandle (foldl (step_auto Number_js) initial [Start_auto 10 1000 1000]) = Some 1 \<and>
   tick 1 601001 (foldl (step_auto Number_js) initial [Start_auto 10 1000 1000]) =
     (foldl (step_auto Number_js) initial [Start_auto 10 1000 1000])
       \<lparr>remainingMs := Ms 0, intervals := [], tickHandle := None, running := False\<rparr>"
proof -
  have a: "start_auto 10 1000 1000 initial = initial\<lparr> startTime := Some (Date (Ms 1000)),
        endTime := Some (Date (Ms 601000)), running := True, remainingMs := Ms 600000,
        intervals := [(1, Update_auto (Date (Ms 601000)))], nextHandle := 2,
        tickHandle := Some 1 \<rparr>"
    by (simp add: start_auto_def update_auto_def setInterval_def clearTimer_def new_Date_def
        maxTime_def Let_def initial_def)
  have b: "confirmStart 1000 1000 (choosePreset 10 initial) =
        initial\<lparr> startTime := Some (Date (Ms 1000)),
        endTime := Some (Date (Ms 601000)), running := True, remainingMs := Ms 600000,
        intervals := [(1, Update (Date (Ms 601000)))], nextHandle := 2,
        tickHandle := Some 1 \<rparr>"
    by (simp add: confirmStart_def choosePreset_def start_def update_def setInterval_def
        clearTimer_def new_Date_def maxTime_def Let_def initial_def)
  have c: "confirmStart_simple 1000 1000 (choosePreset_simple 10 initial) =
        initial\<lparr> startTime := Some (Date (Ms 1000)),
        endTime := Some (Date (Ms 601000)), running := True, remainingMs := Ms 600000,
        intervals := [(1, Update (Date (Ms 601000)))], nextHandle := 2,
        tickHandle := Some 1 \<rparr>"
    by (simp add: confirmStart_simple_def choosePreset_simple_def start_def update_def
        setInterval_def clearTimer_def new_Date_def maxTime_def Let_def initial_def)
  show ?thesis
    using tick_recomputes_remaining [where s = "confirmStart 1000 1000 (choosePreset 10 initial)"
        and h = 1 and e = 601000 and now = 601001 and T = 1000 and N = Number_js
        and es = "[ChoosePreset_simple 10, ConfirmStart_simple 1000 1000]"
        and ea = "[Start_auto 10 1000 1000]"]
      tick_recomputes_remaining [where s = "start_auto 10 1000 1000 initial"
        and h = 1 and e = 601000 and now = 601001 and T = 1000]
      tick_recomputes_remaining [where s = "start_auto 10 1000 1000 initial"
        and h = 1 and e = 601000 and now = 600999 and T = 1000]
    unfolding a b c by (simp add: a b c maxTime_def)
qed

subsection \<open>Confirming and cancelling\<close>

text \<open>
  C7: \<^verbatim>\<open>confirmStart()\<close> with no pending selection returns the state as it is (every field,
  the repeating timers included).  With a pending selection it starts a run: running,
  start time the clock reading \<open>t0\<close>, end time the instant the pending preview
  \<^verbatim>\<open>pendingExpiresAt\<close> resolves the selection to at \<open>t0\<close>, the pending fields cleared, and
  one new repeating timer whose handle is kept in \<^verbatim>\<open>tickHandle\<close>.
\<close>

theorem confirmStart_noop_or_runs:
  "(pendingMinutes s = None \<and> pendingExactEnd s = None \<longrightarrow> confirmStart t0 t1 s = s) \<and>
   (pendingMinutes s = None \<longrightarrow> confirmStart_simple t0 t1 s = s) \<and>
   (pendingMinutes s \<noteq> None \<or> pendingExactEnd s \<noteq> None \<longrightarrow>
      (\<exists>e. pendingExpiresAt t0 s = Some e \<and>
           running (confirmStart t0 t1 s) \<and>
           startTime (confirmStart t0 t1 s) = Some (Date (Ms t0)) \<and>
           endTime (confirmStart t0 t1 s) = Some e \<and>
           remainingMs (confirmStart t0 t1 s) = tv_sub (getTime e) (Ms t1) \<and>
           pendingMinutes (confirmStart t0 t1 s) = None \<and>
           pendingExactEnd (confirmStart t0 t1 s) = None \<and>
           tickHandle (confirmStart t0 t1 s) = Some (nextHandle s) \<and>
           intervals (confirmStart t0 t1 s) =
             intervals (clearTimer s) @ [(nextHandle s, Update e)])) \<and>
   (pendingMinutes s \<noteq> None \<longrightarrow>
      (\<exists>e. pendingExpiresAt_simple t0 s = Some e \<and>
           running (confirmStart_simple t0 t1 s) \<and>
           startTime (confirmStart_simple t0 t1 s) = Some (Date (Ms t0)) \<and>
           endTime (confirmStart_simple t0 t1 s) = Some e \<and>
           remainingMs (confirmStart_simple t0 t1 s) = tv_sub (getTime e) (Ms t1) \<and>
           pendingMinutes (confirmStart_simple t0 t1 s) = None \<and>
           tickHandle (confirmStart_simple t0 t1 s) = Some (nextHandle s) \<and>
           intervals (confirmStart_simple t0 t1 s) =
             intervals (clearTimer s) @ [(nextHandle s, Update e)]))"
proof (intro conjI impI)
  assume "pendingMinutes s = None \<and> pendingExactEnd s = None"
  then show "confirmStart t0 t1 s = s"
    by (simp add: confirmStart_def)
next
  assume "pendingMinutes s = None"
  then show "confirmStart_simple t0 t1 s = s"
    by (simp add: confirmStart_simple_def)
next
  assume pending: "pendingMinutes s \<noteq> None \<or> pendingExactEnd s \<noteq> None"
  show "\<exists>e. pendingExpiresAt t0 s = Some e \<and>
           running (confirmStart t0 t1 s) \<and>
           startTime (confirmStart t0 t1 s) = Some (Date (Ms t0)) \<and>
           endTime (confirmStart t0 t1 s) = Some e \<and>
           remainingMs (confirmStart t0 t1 s) = tv_sub (getTime e) (Ms t1) \<and>
           pendingMinutes (confirmStart t0 t1 s) = None \<and>
           pendingExactEnd (confirmStart t0 t1 s) = None \<and>
           tickHandle (confirmStart t0 t1 s) = Some (nextHandle s) \<and>
           intervals (confirmStart t0 t1 s) =
             intervals (clearTimer s) @ [(nextHandle s, Update e)]"
  proof (cases "pendingExactEnd s")
    case (Some d)
    then show ?thesis
      by (simp add: confirmStart_def pendingExpiresAt_def startUntil_fields)
  next
    case None
    with pending obtain m where "pendingMinutes s = Some m" by auto
    with None show ?thesis
      by (simp add: confirmStart_def pendingExpiresAt_def start_fields)
  qed
next
  assume "pendingMinutes s \<noteq> None"
  then obtain m where "pendingMinutes s = Some m" by auto
  then show "\<exists>e. pendingExpiresAt_simple t0 s = Some e \<and>
           running (confirmStart_simple t0 t1 s) \<and>
           startTime (confirmStart_simple t0 t1 s) = Some (Date (Ms t0)) \<and>
           endTime (confirmStart_simple t0 t1 s) = Some e \<and>
           remainingMs (confirmStart_simple t0 t1 s) = tv_sub (getTime e) (Ms t1) \<and>
           pendingMinutes (confirmStart_simple t0 t1 s) = None \<and>
           tickHandle (confirmStart_simple t0 t1 s) = Some (nextHandle s) \<and>
           intervals (confirmStart_simple t0 t1 s) =
             intervals (clearTimer s) @ [(nextHandle s, Update e)]"
    by (simp add: confirmStart_simple_def pendingExpiresAt_simple_def start_fields)
qed

theorem confirmStart_noop_or_runs_witness:
  "confirmStart 1000 1001 initial = initial \<and>
   confirmStart_simple 1000 1001 initial = initial \<and>
   endTime (confirmStart 1000 1001 (choosePreset 10 initial)) = Some (Date (Ms 601000)) \<and>
   running (confirmStart 1000 1001 (choosePreset 10 initial)) \<and>
   intervals (confirmStart 1000 1001 (choosePreset 10 initial)) = [(1, Update (Date (Ms 601000)))] \<and>
   endTime (confirmStart_simple 1000 1001 (choosePreset_simple 10 initial)) = Some (Date (Ms 601000)) \<and>
   running (confirmStart_simple 1000 1001 (choosePreset_simple 10 initial))"
  using confirmStart_noop_or_runs [of initial 1000 1001]
    confirmStart_noop_or_runs [of "choosePreset 10 initial" 1000 1001]
    confirmStart_noop_or_runs [of "choosePreset_simple 10 initial" 1000 1001]
  by (simp add: initial_def choosePreset_def choosePreset_simple_def pendingExpiresAt_def
      pendingExpiresAt_simple_def new_Date_def maxTime_def clearTimer_def)

text \<open>
  C8: \<^verbatim>\<open>cancel()\<close> on an idle component (not running, no handle, no start and end time,
  remaining time zero) changes no field.
\<close>

theorem cancel_idle_noop:
  assumes "\<not> running s" and "tickHandle s = None" and "startTime s = None"
    and "endTime s = None" and "remainingMs s = Ms 0"
  shows "cancel s = s"
  using assms by (simp add: cancel_def clearTimer_def)

theorem cancel_idle_noop_witness:
  "\<not> running initial \<and> tickHandle initial = None \<and> startTime initial = None \<and>
   endTime initial = None \<and> remainingMs initial = Ms 0 \<and> cancel initial = initial"
  using cancel_idle_noop [of initial] by (simp add: initial_def)

subsection \<open>Custom minutes\<close>

text \<open>
  C9: whatever the custom field holds, if its conversion is NaN, not finite or not
  positive, then \<^verbatim>\<open>parsedCustomMinutes\<close> is null, the Start button is disabled, there is no
  preview, and \<^verbatim>\<open>startCustom()\<close> returns without changing the state; no operation of the
  model has an error branch, as none of the code throws.  In particular for the strings
  \<^verbatim>\<open>"0"\<close>, \<^verbatim>\<open>"-5"\<close> and \<^verbatim>\<open>"abc"\<close>.
\<close>

theorem invalid_custom_minutes_rejected:
  "(Number (customMinutes s) = NaN \<or> \<not> isFinite (Number (customMinutes s)) \<or>
      le_zero (Number (customMinutes s)) \<longrightarrow>
      parsedCustomMinutes Number s = None \<and> custom_start_disabled Number s \<and>
      customExpiresAt Number now s = None \<and>
      startCustom_auto Number t0 t1 s = s \<and> startCustom Number s = s \<and>
      startCustom_simple Number s = s) \<and>
   (customMinutes s = ''0'' \<or> customMinutes s = ''-5'' \<or> customMinutes s = ''abc'' \<longrightarrow>
      parsedCustomMinutes Number_js s = None \<and> custom_start_disabled Number_js s \<and>
      startCustom_auto Number_js t0 t1 s = s \<and> startCustom Number_js s = s \<and>
      startCustom_simple Number_js s = s)"
proof -
  have general: "parsedCustomMinutes N s = None \<and> custom_start_disabled N s \<and>
      customExpiresAt N now s = None \<and>
      startCustom_auto N t0 t1 s = s \<and> startCustom N s = s \<and> startCustom_simple N s = s"
    if "N (customMinutes s) = NaN \<or> \<not> isFinite (N (customMinutes s)) \<or>
      le_zero (N (customMinutes s))" for N
  proof -
    from that have "parsedCustomMinutes N s = None"
      by (auto simp: parsedCustomMinutes_def Let_def)
    then show ?thesis
      by (simp add: custom_start_disabled_def customExpiresAt_def startCustom_auto_def
          startCustom_def startCustom_simple_def)
  qed
  have "N (customMinutes s) = NaN \<or> \<not> isFinite (N (customMinutes s)) \<or>
      le_zero (N (customMinutes s))"
    if "customMinutes s = ''0'' \<or> customMinutes s = ''-5'' \<or> customMinutes s = ''abc''"
      and "N = Number_js" for N
    using that Number_js_examples(1-3) by auto
  with general show ?thesis by blast
qed

theorem invalid_custom_minutes_rejected_witness:
  "le_zero (Number_js ''-5'') \<and>
   parsedCustomMinutes Number_js (initial\<lparr>customMinutes := ''-5''\<rparr>) = None \<and>
   custom_start_disabled Number_js (initial\<lparr>customMinutes := ''-5''\<rparr>) \<and>
   startCustom Number_js (initial\<lparr>customMinutes := ''-5''\<rparr>) = initial\<lparr>customMinutes := ''-5''\<rparr>"
  using invalid_custom_minutes_rejected [of Number_js "initial\<lparr>customMinutes := ''-5''\<rparr>"]
    Number_js_examples(2)
  by simp

text \<open>
  C10, as stated, fails: every finite positive non-integer would be accepted with value
  its floor.  Below \<open>1\<close> the floor is \<open>0\<close>, which \<^verbatim>\<open>!parsedCustomMinutes\<close> treats like null:
  for \<^verbatim>\<open>"0.5"\<close> the parsed value is \<open>0\<close>, the button is disabled and \<^verbatim>\<open>startCustom()\<close> does
  nothing.  And a run of \<open>floor(n)\<close> minutes has an expiry only inside the range of
  \<^verbatim>\<open>Date\<close>.
\<close>

theorem fractional_custom_minutes_counterexample:
  "Number_js ''0.5'' = Fin (1 / 2) \<and>
   parsedCustomMinutes Number_js (initial\<lparr>customMinutes := ''0.5''\<rparr>) = Some 0 \<and>
   custom_start_disabled Number_js (initial\<lparr>customMinutes := ''0.5''\<rparr>) \<and>
   startCustom Number_js (initial\<lparr>customMinutes := ''0.5''\<rparr>)
     = initial\<lparr>customMinutes := ''0.5''\<rparr> \<and>
   startCustom_simple Number_js (initial\<lparr>customMinutes := ''0.5''\<rparr>)
     = initial\<lparr>customMinutes := ''0.5''\<rparr> \<and>
   startCustom_auto Number_js 1700000000000 1700000000000 (initial\<lparr>customMinutes := ''0.5''\<rparr>)
     = initial\<lparr>customMinutes := ''0.5''\<rparr> \<and>
   Number_js ''200000000000.5'' = Fin (400000000001 / 2) \<and>
   endTime (startCustom_auto Number_js 1700000000000 1700000000000
              (initial\<lparr>customMinutes := ''200000000000.5''\<rparr>)) = Some (Date TNaN)"
proof -
  have a: "Number_js ''0.5'' = Fin (1 / 2)"
    by (simp add: Number_js_defs)
  have b: "Number_js ''200000000000.5'' = Fin (400000000001 / 2)"
    by (simp add: Number_js_defs)
  have c: "\<lfloor>400000000001 / 2 :: rat\<rfloor> = 200000000000"
    by (simp add: floor_eq_iff)
  have d: "\<lfloor>1 / 2 :: rat\<rfloor> = 0"
    by (simp add: floor_eq_iff)
  show ?thesis
    by (simp add: a b c d parsedCustomMinutes_def custom_start_disabled_def startCustom_def
        startCustom_simple_def startCustom_auto_def start_auto_times new_Date_def maxTime_def
        initial_def)
qed

text \<open>
  C10, amended.  A custom input that converts to a finite \<open>n \<ge> 1\<close>, integer or not, is
  accepted with value \<open>floor(n)\<close>: the button is enabled, \<^verbatim>\<open>startCustom()\<close> makes
  \<open>floor(n)\<close> the pending selection (\<^verbatim>\<open>part_000\<close>) or starts the run (\<^verbatim>\<open>App.vue\<close>), and the
  run ends \<open>floor(n) * 60000\<close> ms after its start if that instant is inside the range of
  \<^verbatim>\<open>Date\<close>, and has an Invalid Date for its end if it is beyond.  A custom input that
  converts to a finite \<open>n\<close> with \<open>0 < n < 1\<close> has the parsed value \<open>0\<close>, which the checks
  \<^verbatim>\<open>!parsedCustomMinutes\<close> treat as no selection: the button is disabled, there is no
  preview, and \<^verbatim>\<open>startCustom()\<close> leaves the state as it is.
\<close>

theorem fractional_custom_minutes_floor:
  "(Number (customMinutes s) = Fin q \<and> 1 \<le> q \<longrightarrow>
      parsedCustomMinutes Number s = Some \<lfloor>q\<rfloor> \<and>
      \<not> custom_start_disabled Number s \<and>
      startCustom Number s = s\<lparr>pendingExactEnd := None, pendingMinutes := Some \<lfloor>q\<rfloor>\<rparr> \<and>
      startCustom_simple Number s = s\<lparr>pendingMinutes := Some \<lfloor>q\<rfloor>\<rparr> \<and>
      startTime (startCustom_auto Number ta tb s) = Some (Date (Ms ta)) \<and>
      startTime (confirmStart ta tb (startCustom Number s)) = Some (Date (Ms ta)) \<and>
      startTime (confirmStart_simple ta tb (startCustom_simple Number s)) = Some (Date (Ms ta)) \<and>
      (\<bar>ta + \<lfloor>q\<rfloor> * 60000\<bar> \<le> maxTime \<longrightarrow>
         endTime (startCustom_auto Number ta tb s) = Some (Date (Ms (ta + \<lfloor>q\<rfloor> * 60000))) \<and>
         endTime (confirmStart ta tb (startCustom Number s))
           = Some (Date (Ms (ta + \<lfloor>q\<rfloor> * 60000))) \<and>
         endTime (confirmStart_simple ta tb (startCustom_simple Number s))
           = Some (Date (Ms (ta + \<lfloor>q\<rfloor> * 60000)))) \<and>
      (maxTime < \<bar>ta + \<lfloor>q\<rfloor> * 60000\<bar> \<longrightarrow>
         endTime (startCustom_auto Number ta tb s) = Some (Date TNaN) \<and>
         endTime (confirmStart ta tb (startCustom Number s)) = Some (Date TNaN) \<and>
         endTime (confirmStart_simple ta tb (startCustom_simple Number s)) = Some (Date TNaN))) \<and>
   (Number (customMinutes s) = Fin q \<and> 0 < q \<and> q < 1 \<longrightarrow>
      parsedCustomMinutes Number s = Some 0 \<and>
      custom_start_disabled Number s \<and>
      customExpiresAt Number now s = None \<and>
      startCustom Number s = s \<and>
      startCustom_simple Number s = s \<and>
      startCustom_auto Number ta tb s = s)"
  (is "(?whole \<longrightarrow> ?accepted) \<and> (?fraction \<longrightarrow> ?ignored)")
proof -
  have accepted: "?whole \<longrightarrow> ?accepted"
  proof
    assume w: ?whole
    then have pos: "\<lfloor>q\<rfloor> \<noteq> 0" by linarith
    from w have p: "parsedCustomMinutes Number s = Some \<lfloor>q\<rfloor>"
      by (simp add: parsedCustomMinutes_def)
    have beyond: "new_Date (Ms (ta + \<lfloor>q\<rfloor> * 60000)) = Date TNaN"
      if "maxTime < \<bar>ta + \<lfloor>q\<rfloor> * 60000\<bar>"
      using that by (simp add: new_Date_def)
    from p pos beyond show ?accepted
      by (simp add: custom_start_disabled_def startCustom_def startCustom_simple_def
          startCustom_auto_def start_auto_times confirmStart_def confirmStart_simple_def
          start_fields new_Date_in_range)
  qed
  have ignored: "?fraction \<longrightarrow> ?ignored"
  proof
    assume f: ?fraction
    then have "\<lfloor>q\<rfloor> = 0"
      by (simp add: floor_eq_iff)
    with f have "parsedCustomMinutes Number s = Some 0"
      by (simp add: parsedCustomMinutes_def)
    then show ?ignored
      by (simp add: custom_start_disabled_def customExpiresAt_def startCustom_def
          startCustom_simple_def startCustom_auto_def)
  qed
  show ?thesis
    by (rule conjI [OF accepted ignored])
qed

theorem fractional_custom_minutes_floor_witness:
  "Number_js ''2.5'' = Fin (5 / 2) \<and>
   parsedCustomMinutes Number_js (initial\<lparr>customMinutes := ''2.5''\<rparr>) = Some 2 \<and>
   \<not> custom_start_disabled Number_js (initial\<lparr>customMinutes := ''2.5''\<rparr>) \<and>
   endTime (startCustom_auto Number_js 1700000000000 1700000000001
              (initial\<lparr>customMinutes := ''2.5''\<rparr>)) = Some (Date (Ms 1700000120000)) \<and>
   Number_js ''0.25'' = Fin (1 / 4) \<and>
   parsedCustomMinutes Number_js (initial\<lparr>customMinutes := ''0.25''\<rparr>) = Some 0 \<and>
   custom_start_disabled Number_js (initial\<lparr>customMinutes := ''0.25''\<rparr>) \<and>
   startCustom_auto Number_js 1700000000000 1700000000001 (initial\<lparr>customMinutes := ''0.25''\<rparr>)
     = initial\<lparr>customMinutes := ''0.25''\<rparr>"
proof -
  have a: "Number_js ''2.5'' = Fin (5 / 2)" "Number_js ''0.25'' = Fin (1 / 4)"
    by (simp_all add: Number_js_defs)
  have c: "\<lfloor>5 / 2 :: rat\<rfloor> = 2"
    by (simp add: floor_eq_iff)
  show ?thesis
    using fractional_custom_minutes_floor [where Number = Number_js and q = "5 / 2"
        and s = "initial\<lparr>customMinutes := ''2.5''\<rparr>" and ta = 1700000000000
        and tb = 1700000000001]
      fractional_custom_minutes_floor [where Number = Number_js and q = "1 / 4"
        and s = "initial\<lparr>customMinutes := ''0.25''\<rparr>" and ta = 1700000000000
        and tb = 1700000000001]
    by (simp add: a c maxTime_def)
qed

subsection \<open>Repeating timers\<close>

lemma one_ticker_clearTimer:
  assumes "one_ticker s"
  shows "intervals (clearTimer s) = []" and "tickHandle (clearTimer s) = None"
proof -
  show "tickHandle (clearTimer s) = None"
    by (simp add: clearTimer_def split: option.splits)
  show "intervals (clearTimer s) = []"
  proof (cases "tickHandle s")
    case None
    with assms show ?thesis by (simp add: clearTimer_def one_ticker_def)
  next
    case (Some h)
    with assms have "map fst (intervals s) = [h]" by (simp add: one_ticker_def)
    then obtain cb where "intervals s = [(h, cb)]" by auto
    with Some show ?thesis by (simp add: clearTimer_def clearInterval_def)
  qed
qed

lemma one_ticker_update [simp]:
  "one_ticker (s\<lparr>running := r\<rparr>) = one_ticker s"
  "one_ticker (s\<lparr>remainingMs := m\<rparr>) = one_ticker s"
  "one_ticker (s\<lparr>startTime := a\<rparr>) = one_ticker s"
  "one_ticker (s\<lparr>endTime := a\<rparr>) = one_ticker s"
  "one_ticker (s\<lparr>pendingMinutes := p\<rparr>) = one_ticker s"
  "one_ticker (s\<lparr>pendingExactEnd := q\<rparr>) = one_ticker s"
  "one_ticker (s\<lparr>customMinutes := c\<rparr>) = one_ticker s"
  "one_ticker (s\<lparr>preciseEndLocal := c\<rparr>) = one_ticker s"
  "one_ticker (s\<lparr>hovered := p\<rparr>) = one_ticker s"
  by (simp_all add: one_ticker_def)

lemma one_ticker_clearTimer': "one_ticker s \<Longrightarrow> one_ticker (clearTimer s)"
  by (simp add: one_ticker_def one_ticker_clearTimer)

lemma one_ticker_cancel: "one_ticker s \<Longrightarrow> one_ticker (cancel s)"
  by (simp add: cancel_def one_ticker_clearTimer')

lemma one_ticker_start: "one_ticker s \<Longrightarrow> one_ticker (start m t0 t1 s)"
  by (simp add: one_ticker_def start_fields one_ticker_clearTimer)

lemma one_ticker_startUntil: "one_ticker s \<Longrightarrow> one_ticker (startUntil e t0 t1 s)"
  by (simp add: one_ticker_def startUntil_fields one_ticker_clearTimer)

lemma one_ticker_start_auto: "one_ticker s \<Longrightarrow> one_ticker (start_auto m t0 t1 s)"
  by (simp add: one_ticker_def start_auto_timers one_ticker_clearTimer)

lemma one_ticker_tick: "one_ticker s \<Longrightarrow> one_ticker (tick h now s)"
proof (cases "map_of (intervals s) h")
  case None
  then show "one_ticker s \<Longrightarrow> ?thesis" by (simp add: tick_def)
next
  case (Some cb)
  then show "one_ticker s \<Longrightarrow> ?thesis"
    by (cases cb) (simp_all add: tick_def update_def update_auto_def Let_def one_ticker_clearTimer')
qed

lemma one_ticker_setPrecise [simp]: "one_ticker (setPrecise z d now s) = one_ticker s"
  by (simp add: one_ticker_def)

lemma one_ticker_step: "one_ticker s \<Longrightarrow> one_ticker (step rt s e)"
proof (cases e)
  case (ConfirmStart t0 t1)
  then show "one_ticker s \<Longrightarrow> ?thesis"
    by (simp add: confirmStart_def one_ticker_start one_ticker_startUntil split: option.splits)
next
  case (ShortcutEndOfDay t0 t1)
  then show "one_ticker s \<Longrightarrow> ?thesis"
    by (simp add: shortcutEndOfDay_def split: sum.splits)
qed (simp_all add: choosePreset_def startCustom_def cancelPending_def previewPreciseEnd_def
    shortcutHalfPast_def shortcutEndOfHour_def shortcutNextHour_def shortcutNoon_def
    one_ticker_cancel one_ticker_tick one_ticker_clearTimer' Let_def)

lemma one_ticker_step_simple: "one_ticker s \<Longrightarrow> one_ticker (step_simple N s e)"
  by (cases e)
    (simp_all add: choosePreset_simple_def startCustom_simple_def cancelPending_simple_def
      confirmStart_simple_def one_ticker_start one_ticker_cancel one_ticker_tick
      one_ticker_clearTimer' split: option.splits)

lemma one_ticker_step_auto: "one_ticker s \<Longrightarrow> one_ticker (step_auto N s e)"
  by (cases e)
    (simp_all add: startCustom_auto_def one_ticker_start_auto one_ticker_cancel one_ticker_tick
      one_ticker_clearTimer')

lemma one_ticker_runs:
  assumes "one_ticker s"
  shows "one_ticker (foldl (step rt) s evs)"
    and "one_ticker (foldl (step_simple N) s es)"
    and "one_ticker (foldl (step_auto N) s ea)"
proof -
  show "one_ticker (foldl (step rt) s evs)"
    using assms by (induction evs arbitrary: s) (simp_all add: one_ticker_step)
  show "one_ticker (foldl (step_simple N) s es)"
    using assms by (induction es arbitrary: s) (simp_all add: one_ticker_step_simple)
  show "one_ticker (foldl (step_auto N) s ea)"
    using assms by (induction ea arbitrary: s) (simp_all add: one_ticker_step_auto)
qed

lemma one_ticker_length: "one_ticker s \<Longrightarrow> length (intervals s) \<le> 1"
proof -
  assume "one_ticker s"
  then have "length (map fst (intervals s)) \<le> 1"
    by (cases "tickHandle s") (simp_all add: one_ticker_def)
  then show ?thesis by simp
qed

text \<open>
  C5: after every finite sequence of events, in each of the three versions, at most one
  repeating timer is active, and it is the one whose handle \<^verbatim>\<open>tickHandle\<close> holds; so
  \<^verbatim>\<open>clearTimer()\<close>, which every \<^verbatim>\<open>start\<close>, \<^verbatim>\<open>startUntil\<close> and \<^verbatim>\<open>cancel\<close> calls first, leaves none.
\<close>

theorem at_most_one_ticker:
  "one_ticker (foldl (step rt) initial evs) \<and>
   length (intervals (foldl (step rt) initial evs)) \<le> 1 \<and>
   intervals (clearTimer (foldl (step rt) initial evs)) = [] \<and>
   one_ticker (foldl (step_simple N) initial es) \<and>
   length (intervals (foldl (step_simple N) initial es)) \<le> 1 \<and>
   intervals (clearTimer (foldl (step_simple N) initial es)) = [] \<and>
   one_ticker (foldl (step_auto N) initial ea) \<and>
   length (intervals (foldl (step_auto N) initial ea)) \<le> 1 \<and>
   intervals (clearTimer (foldl (step_auto N) initial ea)) = []"
proof -
  have "one_ticker initial"
    by (simp add: one_ticker_def initial_def)
  note runs = one_ticker_runs [OF this]
  show ?thesis
    using runs(1) [of rt evs] runs(2) [of N es] runs(3) [of N ea]
      one_ticker_length [OF runs(1) [of rt evs]]
      one_ticker_length [OF runs(2) [of N es]] one_ticker_length [OF runs(3) [of N ea]]
    by (simp add: one_ticker_clearTimer)
qed

subsection \<open>Pending selections\<close>

lemma clearTimer_pending [simp]:
  "pendingMinutes (clearTimer s) = pendingMinutes s"
  "pendingExactEnd (clearTimer s) = pendingExactEnd s"
  by (simp_all add: clearTimer_def clearInterval_def split: option.splits)

lemma tick_pending [simp]:
  "pendingMinutes (tick h now s) = pendingMinutes s"
  "pendingExactEnd (tick h now s) = pendingExactEnd s"
proof -
  have "pendingMinutes (run_callback cb now s) = pendingMinutes s \<and>
      pendingExactEnd (run_callback cb now s) = pendingExactEnd s" for cb
    by (cases cb) (simp_all add: update_def update_auto_def Let_def)
  then show "pendingMinutes (tick h now s) = pendingMinutes s"
    "pendingExactEnd (tick h now s) = pendingExactEnd s"
    by (simp_all add: tick_def split: option.splits)
qed

lemma one_pending_setPrecise: "one_pending s \<Longrightarrow> one_pending (setPrecise z d now s)"
  by (simp add: one_pending_def setPrecise_def Let_def)

lemma one_pending_step: "one_pending s \<Longrightarrow> one_pending (step rt s e)"
proof (cases e)
  case (ConfirmStart t0 t1)
  then show "one_pending s \<Longrightarrow> ?thesis"
    by (simp add: one_pending_def confirmStart_def split: option.splits)
next
  case (ShortcutEndOfDay t0 t1)
  then show "one_pending s \<Longrightarrow> ?thesis"
    by (simp add: shortcutEndOfDay_def one_pending_setPrecise split: sum.splits)
next
  case Cancel
  then show "one_pending s \<Longrightarrow> ?thesis"
    by (simp add: one_pending_def cancel_def)
next
  case (Tick h now)
  then show "one_pending s \<Longrightarrow> ?thesis"
    by (simp add: one_pending_def)
next
  case Unmount
  then show "one_pending s \<Longrightarrow> ?thesis"
    by (simp add: one_pending_def)
qed (simp_all add: choosePreset_def startCustom_def cancelPending_def previewPreciseEnd_def
    shortcutHalfPast_def shortcutEndOfHour_def shortcutNextHour_def shortcutNoon_def
    one_pending_setPrecise Let_def, simp_all add: one_pending_def)

lemma one_pending_run: "one_pending s \<Longrightarrow> one_pending (foldl (step rt) s evs)"
  by (induction evs arbitrary: s) (simp_all add: one_pending_step)

text \<open>
  C6: after every finite sequence of events of the version with precise end times, at
  most one of \<^verbatim>\<open>pendingMinutes\<close> and \<^verbatim>\<open>pendingExactEnd\<close> is set.  Choosing a preset, submitting
  valid custom minutes, previewing a precise end time in the future and a shortcut each
  set their own field, whatever was pending, and clear the other.
\<close>

theorem pending_selection_exclusive:
  "one_pending (foldl (step rt) initial evs) \<and>
   pendingMinutes (choosePreset m s) = Some m \<and> pendingExactEnd (choosePreset m s) = None \<and>
   (\<not> falsy (parsedCustomMinutes Number s) \<longrightarrow>
      pendingMinutes (startCustom Number s) = parsedCustomMinutes Number s \<and>
      pendingExactEnd (startCustom Number s) = None) \<and>
   (preciseEndIsFuture parse now s \<longrightarrow>
      parsedPreciseEnd parse s \<noteq> None \<and>
      pendingMinutes (previewPreciseEnd parse now s) = None \<and>
      pendingExactEnd (previewPreciseEnd parse now s) = parsedPreciseEnd parse s) \<and>
   (tv_gt (getTime (setSeconds z 0 0 d)) (Ms now) \<longrightarrow>
      pendingMinutes (setPrecise z d now s) = None \<and>
      pendingExactEnd (setPrecise z d now s) = Some (setSeconds z 0 0 d))"
proof -
  have "one_pending initial"
    by (simp add: one_pending_def initial_def)
  then have "one_pending (foldl (step rt) initial evs)"
    by (rule one_pending_run)
  moreover have "preciseEndIsFuture parse now s \<Longrightarrow> parsedPreciseEnd parse s \<noteq> None"
    by (auto simp: preciseEndIsFuture_def split: option.splits)
  ultimately show ?thesis
    by (auto simp: choosePreset_def startCustom_def previewPreciseEnd_def setPrecise_def Let_def)
qed

theorem pending_selection_exclusive_witness:
  "\<not> falsy (parsedCustomMinutes Number_js (initial\<lparr>customMinutes := ''25'', pendingExactEnd := Some (Date (Ms 5))\<rparr>)) \<and>
   pendingMinutes (startCustom Number_js
      (initial\<lparr>customMinutes := ''25'', pendingExactEnd := Some (Date (Ms 5))\<rparr>)) = Some 25 \<and>
   pendingExactEnd (startCustom Number_js
      (initial\<lparr>customMinutes := ''25'', pendingExactEnd := Some (Date (Ms 5))\<rparr>)) = None \<and>
   preciseEndIsFuture (\<lambda>v. Date (Ms 120000)) 1000
      (initial\<lparr>preciseEndLocal := ''1970-01-01T00:02'', pendingMinutes := Some 5\<rparr>) \<and>
   pendingMinutes (previewPreciseEnd (\<lambda>v. Date (Ms 120000)) 1000
      (initial\<lparr>preciseEndLocal := ''1970-01-01T00:02'', pendingMinutes := Some 5\<rparr>)) = None \<and>
   pendingExactEnd (previewPreciseEnd (\<lambda>v. Date (Ms 120000)) 1000
      (initial\<lparr>preciseEndLocal := ''1970-01-01T00:02'', pendingMinutes := Some 5\<rparr>))
     = Some (Date (Ms 120000)) \<and>
   tv_gt (getTime (setSeconds \<lparr>LocalTZA_utc = \<lambda>t. 0, LocalTZA_local = \<lambda>t. 0\<rparr> 0 0
      (Date (Ms 125250)))) (Ms 1000) \<and>
   pendingExactEnd (setPrecise \<lparr>LocalTZA_utc = \<lambda>t. 0, LocalTZA_local = \<lambda>t. 0\<rparr>
      (Date (Ms 125250)) 1000 (initial\<lparr>pendingMinutes := Some 5\<rparr>)) = Some (Date (Ms 120000)) \<and>
   pendingMinutes (setPrecise \<lparr>LocalTZA_utc = \<lambda>t. 0, LocalTZA_local = \<lambda>t. 0\<rparr>
      (Date (Ms 125250)) 1000 (initial\<lparr>pendingMinutes := Some 5\<rparr>)) = None"
proof -
  have n: "Number_js ''25'' = Fin 25"
    by (simp add: Number_js_defs)
  have p: "parsedCustomMinutes Number_js
      (initial\<lparr>customMinutes := ''25'', pendingExactEnd := Some (Date (Ms 5))\<rparr>) = Some 25"
    by (simp add: parsedCustomMinutes_def n)
  have f: "preciseEndIsFuture (\<lambda>v. Date (Ms 120000)) 1000
      (initial\<lparr>preciseEndLocal := ''1970-01-01T00:02'', pendingMinutes := Some 5\<rparr>)"
    "parsedPreciseEnd (\<lambda>v. Date (Ms 120000))
      (initial\<lparr>preciseEndLocal := ''1970-01-01T00:02'', pendingMinutes := Some 5\<rparr>)
      = Some (Date (Ms 120000))"
    by (simp_all add: preciseEndIsFuture_def parsedPreciseEnd_def)
  have s: "setSeconds \<lparr>LocalTZA_utc = \<lambda>t. 0, LocalTZA_local = \<lambda>t. 0\<rparr> 0 0 (Date (Ms 125250))
      = Date (Ms 120000)"
    by code_simp
  show ?thesis
    using pending_selection_exclusive [where Number = Number_js
        and s = "initial\<lparr>customMinutes := ''25'', pendingExactEnd := Some (Date (Ms 5))\<rparr>"]
      pending_selection_exclusive [where parse = "\<lambda>v. Date (Ms 120000)" and now = 1000
        and s = "initial\<lparr>preciseEndLocal := ''1970-01-01T00:02'', pendingMinutes := Some 5\<rparr>"]
      pending_selection_exclusive [where z = "\<lparr>LocalTZA_utc = \<lambda>t. 0, LocalTZA_local = \<lambda>t. 0\<rparr>"
        and d = "Date (Ms 125250)" and now = 1000 and s = "initial\<lparr>pendingMinutes := Some 5\<rparr>"]
    by (simp add: p f s)
qed

end
